theory Spec2Isabelle
  imports Main "HOL-Library.Word" "HOL-Library.Sublist"
begin

section \<open>Package shortener: the code generator\<close>

text \<open>
  Go strings are byte strings: a \<^typ>\<open>string\<close> here is the list of the bytes of the Go
  string, \<^term>\<open>length\<close> is Go's \<open>len\<close>. Go's \<open>int\<close> is modelled by \<^typ>\<open>int\<close> (no
  arithmetic on it can overflow in the functions below: the length is clamped before
  it is used) and Go's \<open>uint\<close> by a 64-bit word, whose arithmetic wraps as Go's does.
\<close>

definition base62Chars :: string where
  "base62Chars = ''0123456789ABCDEFGHIJKLMNOPQRSTUVWXYZabcdefghijklmnopqrstuvwxyz''"

text \<open>The struct \<open>CodeGenerator\<close>; its field \<open>length\<close> is named \<open>gen_length\<close> here.\<close>

record CodeGenerator =
  gen_length :: int

definition NewCodeGenerator :: "int \<Rightarrow> CodeGenerator" where
  "NewCodeGenerator n =
     (let l1 = (if n < 4 then 6 else n);
          l2 = (if l1 > 12 then 12 else l1)
      in \<lparr>gen_length = l2\<rparr>)"

text \<open>
  \<open>crypto/rand\<close> is outside the program: the reader is a parameter that gives the
  outcome of its \<open>k\<close>-th use, \<open>None\<close> for a read error and \<open>Some v\<close> for entropy \<open>v\<close>.
  \<open>rand.Int(rand.Reader, max)\<close> returns a value in \<open>[0, max)\<close> or the error.
\<close>

type_synonym rand_Reader = "nat \<Rightarrow> nat option"

definition rand_Int :: "rand_Reader \<Rightarrow> nat \<Rightarrow> nat \<Rightarrow> nat option" where
  "rand_Int rd k m = map_option (\<lambda>v. v mod m) (rd k)"

definition rand_skip :: "nat \<Rightarrow> rand_Reader \<Rightarrow> rand_Reader" where
  "rand_skip n rd = (\<lambda>k. rd (n + k))"

text \<open>
  \<open>Generate\<close>: \<open>make([]byte, g.length)\<close> panics on a negative length (the result
  \<open>None\<close>); position \<open>i\<close> holds the symbol drawn by the \<open>i\<close>-th use of the reader, or
  symbol \<open>i % 62\<close> when that use failed.
\<close>

definition Generate_index :: "rand_Reader \<Rightarrow> nat \<Rightarrow> nat" where
  "Generate_index rd i =
     (case rand_Int rd i (length base62Chars) of
        None \<Rightarrow> i mod length base62Chars
      | Some num \<Rightarrow> num)"

definition Generate_bytes :: "CodeGenerator \<Rightarrow> rand_Reader \<Rightarrow> string" where
  "Generate_bytes g rd = map (\<lambda>i. base62Chars ! Generate_index rd i) [0..<nat (gen_length g)]"

definition Generate :: "CodeGenerator \<Rightarrow> rand_Reader \<Rightarrow> string option" where
  "Generate g rd = (if gen_length g < 0 then None else Some (Generate_bytes g rd))"

text \<open>
  \<open>GenerateFromID\<close>: the early return for \<open>id == 0\<close>, the conversion loop
  \<open>for num > 0\<close> that prepends one digit per round, and the padding loop
  \<open>for len(result) < g.length\<close>. \<open>make([]byte, 0, g.length)\<close> panics on a negative
  capacity (\<open>None\<close>).
\<close>

function GenerateFromID_convert :: "64 word \<Rightarrow> string \<Rightarrow> string" where
  "GenerateFromID_convert num result =
     (if num > 0
      then GenerateFromID_convert (num div 62) (base62Chars ! unat (num mod 62) # result)
      else result)"
  by pat_completeness auto
termination
proof (relation "measure (\<lambda>(num, result). unat num)")
  show "wf (measure (\<lambda>(num :: 64 word, result :: string). unat num))"
    by simp
next
  fix num :: "64 word" and result :: string
  assume pos: "0 < num"
  then have "unat num \<noteq> 0"
    by (simp add: unat_eq_0 word_greater_zero_iff)
  then have "unat num div 62 < unat num"
    by simp
  then show "((num div 62, base62Chars ! unat (num mod 62) # result), (num, result))
      \<in> measure (\<lambda>(num, result). unat num)"
    by (simp add: unat_div)
qed

function GenerateFromID_pad :: "int \<Rightarrow> string \<Rightarrow> string" where
  "GenerateFromID_pad len result =
     (if int (length result) < len
      then GenerateFromID_pad len (base62Chars ! 0 # result)
      else result)"
  by pat_completeness auto
termination
  by (relation "measure (\<lambda>(len, result). nat (len - int (length result)))") auto

declare GenerateFromID_convert.simps [simp del] GenerateFromID_pad.simps [simp del]

definition GenerateFromID :: "CodeGenerator \<Rightarrow> 64 word \<Rightarrow> string option" where
  "GenerateFromID g ident =
     (if ident = 0 then Some [base62Chars ! 0]
      else if gen_length g < 0 then None
      else Some (GenerateFromID_pad (gen_length g) (GenerateFromID_convert ident [])))"

text \<open>
  \<open>Decode\<close>: the \<open>switch\<close> on the byte gives its digit value, or skips the byte
  (\<open>continue\<close>) when it is no base62 symbol; \<open>result*62 + value\<close> wraps at 64 bits.
\<close>

definition Decode_value :: "char \<Rightarrow> 64 word option" where
  "Decode_value c =
     (let b = (of_char c :: nat) in
      if of_char CHR ''0'' \<le> b \<and> b \<le> of_char CHR ''9'' then Some (of_nat (b - of_char CHR ''0''))
      else if of_char CHR ''A'' \<le> b \<and> b \<le> of_char CHR ''Z'' then Some (of_nat (b - of_char CHR ''A'') + 10)
      else if of_char CHR ''a'' \<le> b \<and> b \<le> of_char CHR ''z'' then Some (of_nat (b - of_char CHR ''a'') + 36)
      else None)"

fun Decode_loop :: "64 word \<Rightarrow> string \<Rightarrow> 64 word" where
  "Decode_loop result [] = result"
| "Decode_loop result (c # code) =
     (case Decode_value c of
        None \<Rightarrow> Decode_loop result code
      | Some v \<Rightarrow> Decode_loop (result * 62 + v) code)"

definition Decode :: "CodeGenerator \<Rightarrow> string \<Rightarrow> 64 word" where
  "Decode g code = Decode_loop 0 code"

text \<open>
  \<open>IsValid\<close>: Go ranges over the runes of the code and looks each one up in
  \<open>base62Chars\<close>; a byte outside ASCII belongs to a rune that is not in the alphabet, so
  the test on bytes gives the same answer.
\<close>

definition IsValid :: "CodeGenerator \<Rightarrow> string \<Rightarrow> bool" where
  "IsValid g code =
     (if length code = 0 \<or> int (length code) > gen_length g then False
      else list_all (\<lambda>c. c \<in> set base62Chars) code)"

section \<open>The standard library the validator calls\<close>

text \<open>
  \<open>net/url\<close>, \<open>regexp\<close>, \<open>strings.ToLower\<close> and \<open>time.AddDate\<close> are not code of this
  program. The functions that call them take their behaviour as a parameter, a record
  of type \<open>stdlib\<close>; of \<open>url.URL\<close> the program reads and writes \<open>Scheme\<close>, \<open>Host\<close> and
  \<open>Path\<close> only. \<open>url_Parse\<close> answers \<open>None\<close> for Go's error. An instant is a number of
  nanoseconds on the time line.
\<close>

type_synonym time = int

record url_URL =
  Scheme :: string
  Host :: string
  Path :: string

record stdlib =
  url_Parse :: "string \<Rightarrow> url_URL option"
  url_String :: "url_URL \<Rightarrow> string"
  urlRegex_MatchString :: "string \<Rightarrow> bool"
  strings_ToLower :: "string \<Rightarrow> string"
  time_AddDate_days :: "time \<Rightarrow> int \<Rightarrow> time"

text \<open>\<open>strings.Contains\<close> and \<open>strings.TrimSuffix\<close> work on bytes.\<close>

fun strings_Contains :: "string \<Rightarrow> string \<Rightarrow> bool" where
  "strings_Contains [] substr = (substr = [])"
| "strings_Contains (c # s) substr = (prefix substr (c # s) \<or> strings_Contains s substr)"

definition strings_TrimSuffix :: "string \<Rightarrow> string \<Rightarrow> string" where
  "strings_TrimSuffix s suf = (if suffix suf s then take (length s - length suf) s else s)"

section \<open>Package validator\<close>

record ValidationError =
  Field :: string
  Message :: string

definition allowedSchemes :: "string \<Rightarrow> bool" where
  "allowedSchemes k = (k = ''http'' \<or> k = ''https'' \<or> k = ''ftp'')"

text \<open>
  \<open>shortCodeRegex\<close> is \<^verbatim>\<open>^[a-zA-Z0-9_-]+$\<close>: Go's \<open>$\<close> matches at the end of the text
  only, and the class holds ASCII bytes only, so the match is decided byte by byte.
\<close>

definition shortCodeRegex_class :: "char \<Rightarrow> bool" where
  "shortCodeRegex_class c =
     (let b = (of_char c :: nat) in
      (of_char CHR ''a'' \<le> b \<and> b \<le> of_char CHR ''z'')
      \<or> (of_char CHR ''A'' \<le> b \<and> b \<le> of_char CHR ''Z'')
      \<or> (of_char CHR ''0'' \<le> b \<and> b \<le> of_char CHR ''9'')
      \<or> c = CHR ''_'' \<or> c = CHR ''-'')"

definition shortCodeRegex_MatchString :: "string \<Rightarrow> bool" where
  "shortCodeRegex_MatchString code = (code \<noteq> [] \<and> list_all shortCodeRegex_class code)"

definition ValidateURL :: "stdlib \<Rightarrow> string \<Rightarrow> ValidationError option" where
  "ValidateURL lib rawURL =
     (if rawURL = [] then Some \<lparr>Field = ''url'', Message = ''URL cannot be empty''\<rparr>
      else if \<not> urlRegex_MatchString lib rawURL
      then Some \<lparr>Field = ''url'', Message = ''Invalid URL format''\<rparr>
      else case url_Parse lib rawURL of
        None \<Rightarrow> Some \<lparr>Field = ''url'', Message = ''Invalid URL structure''\<rparr>
      | Some parsed \<Rightarrow>
          if \<not> allowedSchemes (strings_ToLower lib (Scheme parsed))
          then Some \<lparr>Field = ''url'', Message = ''Unsupported URL scheme''\<rparr>
          else if Host parsed = []
          then Some \<lparr>Field = ''url'', Message = ''URL must contain a host''\<rparr>
          else if length rawURL > 2048
          then Some \<lparr>Field = ''url'', Message = ''URL too long (max 2048 characters)''\<rparr>
          else None)"

definition ValidateShortCode :: "string \<Rightarrow> bool" where
  "ValidateShortCode code =
     (if length code < 2 \<or> length code > 50 then False
      else shortCodeRegex_MatchString code)"

definition NormalizeURL :: "stdlib \<Rightarrow> string \<Rightarrow> string" where
  "NormalizeURL lib rawURL0 =
     (let rawURL = (if \<not> strings_Contains rawURL0 ''://'' then ''https://'' @ rawURL0 else rawURL0)
      in case url_Parse lib rawURL of
           None \<Rightarrow> rawURL
         | Some parsed \<Rightarrow>
             url_String lib
               (parsed\<lparr>Scheme := strings_ToLower lib (Scheme parsed),
                       Host := strings_ToLower lib (Host parsed),
                       Path := strings_TrimSuffix (Path parsed) ''/''\<rparr>))"

section \<open>Package domain\<close>

text \<open>
  Go's \<open>error\<close> values: the package's sentinel errors, an error of the database layer
  (\<open>gorm.ErrDuplicatedKey\<close>, or the driver's own error with its SQLSTATE), an error made
  by \<open>fmt.Errorf\<close>, and \<open>AppError\<close> with its fields \<open>Err\<close>, \<open>Message\<close>, \<open>StatusCode\<close>
  and \<open>Internal\<close>. \<open>Panic\<close> stands for a run-time panic.
\<close>

datatype db_error = ErrDuplicatedKey | PgError string

datatype error =
    ErrURLNotFound
  | ErrURLExpired
  | ErrInvalidURL
  | ErrShortCodeTaken
  | DbError db_error
  | Errorf string
  | AppError error string nat bool
  | Panic

definition NewValidationError :: "string \<Rightarrow> error" where
  "NewValidationError message = AppError ErrInvalidURL message 400 False"

definition NewInternalError :: "error \<Rightarrow> error" where
  "NewInternalError err = AppError err ''Internal server error occurred'' 500 True"

record URL =
  ID :: nat
  ShortCode :: string
  OriginalURL :: string
  CreatedAt :: time
  UpdatedAt :: time
  ExpiresAt :: "time option"
  ClickCount :: int
  LastAccessAt :: "time option"
  CreatorIP :: string
  IsActive :: bool
  CustomAlias :: bool

text \<open>\<open>IsExpired\<close> reads the clock: \<open>now\<close> is what \<open>time.Now()\<close> returns.\<close>

definition IsExpired :: "URL \<Rightarrow> time \<Rightarrow> bool" where
  "IsExpired u now = (case ExpiresAt u of None \<Rightarrow> False | Some e \<Rightarrow> now > e)"

record CreateURLRequest =
  req_URL :: string
  req_CustomAlias :: string
  req_ExpiryDays :: int

record CreateURLResponse =
  resp_ShortCode :: string
  resp_ShortURL :: string
  resp_OriginalURL :: string
  resp_CreatedAt :: time
  resp_ExpiresAt :: "time option"

section \<open>The table \<open>urls\<close> and package repository/postgres\<close>

text \<open>
  The table is the list of its rows. Of the database the model keeps what the schema
  (the migration and the struct tags of \<open>URL\<close>) declares: \<open>short_code\<close> is
  \<open>VARCHAR(12) NOT NULL UNIQUE\<close>, unique over all rows whatever \<open>is_active\<close> is;
  \<open>creator_ip\<close> is \<open>VARCHAR(45)\<close>; \<open>id\<close> is assigned by the database, larger than
  every id in the table. \<open>infra\<close> says whether the database and the cache answer at
  all, and whether the handle was opened with \<open>TranslateError\<close>, which alone turns the
  driver's unique violation into \<open>gorm.ErrDuplicatedKey\<close>.
\<close>

record infra =
  db_up :: bool
  cache_up :: bool
  TranslateError :: bool

definition pg_connection_failure :: error where
  "pg_connection_failure = DbError (PgError ''08006'')"

definition pg_unique_violation :: db_error where
  "pg_unique_violation = PgError ''23505''"

definition pg_string_data_right_truncation :: db_error where
  "pg_string_data_right_truncation = PgError ''22001''"

definition next_id :: "URL list \<Rightarrow> nat" where
  "next_id rows = Suc (fold max (map ID rows) 0)"

text \<open>\<open>First\<close> orders by the primary key and takes one row.\<close>

definition gorm_First :: "URL list \<Rightarrow> URL option" where
  "gorm_First rows =
     (case rows of
        [] \<Rightarrow> None
      | r # rs \<Rightarrow> Some (fold (\<lambda>x m. if ID x < ID m then x else m) rs r))"

text \<open>
  \<open>Create\<close>: the insert fails on a code or an address too long for its column and on a
  code that some row already has; otherwise the row is appended with its id and its
  \<open>autoCreateTime\<close> and \<open>autoUpdateTime\<close> stamps. The result carries the entity as
  GORM leaves it in the caller's struct.
\<close>

definition gorm_Create :: "infra \<Rightarrow> time \<Rightarrow> URL list \<Rightarrow> URL \<Rightarrow> db_error + (URL \<times> URL list)" where
  "gorm_Create env now rows url =
     (if \<not> db_up env then Inl (PgError ''08006'')
      else if length (ShortCode url) > 12 \<or> length (CreatorIP url) > 45
      then Inl pg_string_data_right_truncation
      else if list_ex (\<lambda>r. ShortCode r = ShortCode url) rows
      then Inl (if TranslateError env then ErrDuplicatedKey else pg_unique_violation)
      else (let url' = url\<lparr>ID := next_id rows, CreatedAt := now, UpdatedAt := now\<rparr>
            in Inr (url', rows @ [url'])))"

definition Create :: "infra \<Rightarrow> time \<Rightarrow> URL list \<Rightarrow> URL \<Rightarrow> error + (URL \<times> URL list)" where
  "Create env now rows url =
     (case gorm_Create env now rows url of
        Inl e \<Rightarrow>
          (if e = ErrDuplicatedKey then Inl ErrShortCodeTaken
           else Inl (NewInternalError (DbError e)))
      | Inr res \<Rightarrow> Inr res)"

definition FindByShortCode :: "infra \<Rightarrow> URL list \<Rightarrow> string \<Rightarrow> error + URL" where
  "FindByShortCode env rows shortCode =
     (if \<not> db_up env then Inl (NewInternalError pg_connection_failure)
      else case gorm_First (filter (\<lambda>r. ShortCode r = shortCode \<and> IsActive r = True) rows) of
             None \<Rightarrow> Inl ErrURLNotFound
           | Some url \<Rightarrow> Inr url)"

definition FindByOriginalURL :: "infra \<Rightarrow> URL list \<Rightarrow> string \<Rightarrow> error + URL" where
  "FindByOriginalURL env rows originalURL =
     (if \<not> db_up env then Inl (NewInternalError pg_connection_failure)
      else case gorm_First (filter (\<lambda>r. OriginalURL r = originalURL \<and> IsActive r = True) rows) of
             None \<Rightarrow> Inl ErrURLNotFound
           | Some url \<Rightarrow> Inr url)"

text \<open>
  \<open>Delete\<close> and \<open>IncrementClickCount\<close> are one \<open>UPDATE\<close> each; \<open>RowsAffected\<close> is the
  number of rows the \<open>WHERE\<close> clause selects, and every \<open>UPDATE\<close> stamps \<open>updated_at\<close>.
  They return Go's \<open>error\<close> (\<open>None\<close> for \<open>nil\<close>) and the table; \<open>now\<close> is the clock.
\<close>

definition Delete :: "infra \<Rightarrow> time \<Rightarrow> URL list \<Rightarrow> string \<Rightarrow> error option \<times> URL list" where
  "Delete env now rows shortCode =
     (if \<not> db_up env then (Some (NewInternalError pg_connection_failure), rows)
      else let RowsAffected = length (filter (\<lambda>r. ShortCode r = shortCode) rows);
               rows' = map (\<lambda>r. if ShortCode r = shortCode
                                 then r\<lparr>IsActive := False, UpdatedAt := now\<rparr> else r) rows
           in if RowsAffected = 0 then (Some ErrURLNotFound, rows') else (None, rows'))"

definition IncrementClickCount :: "infra \<Rightarrow> time \<Rightarrow> URL list \<Rightarrow> string \<Rightarrow> error option \<times> URL list" where
  "IncrementClickCount env now rows shortCode =
     (if \<not> db_up env then (Some (NewInternalError pg_connection_failure), rows)
      else let RowsAffected = length (filter (\<lambda>r. ShortCode r = shortCode \<and> IsActive r = True) rows);
               rows' = map (\<lambda>r. if ShortCode r = shortCode \<and> IsActive r = True
                                 then r\<lparr>ClickCount := ClickCount r + 1,
                                        LastAccessAt := Some now,
                                        UpdatedAt := now\<rparr>
                                 else r) rows
           in if RowsAffected = 0 then (Some ErrURLNotFound, rows') else (None, rows'))"

definition DeleteExpired :: "infra \<Rightarrow> time \<Rightarrow> URL list \<Rightarrow> (error + nat) \<times> URL list" where
  "DeleteExpired env now rows =
     (if \<not> db_up env then (Inl (NewInternalError pg_connection_failure), rows)
      else let sel = (\<lambda>r. case ExpiresAt r of None \<Rightarrow> False | Some e \<Rightarrow> e < now)
           in (Inr (length (filter sel rows)),
               map (\<lambda>r. if sel r then r\<lparr>IsActive := False, UpdatedAt := now\<rparr> else r) rows))"

definition ExistsByShortCode :: "infra \<Rightarrow> URL list \<Rightarrow> string \<Rightarrow> error + bool" where
  "ExistsByShortCode env rows shortCode =
     (if \<not> db_up env then Inl (NewInternalError pg_connection_failure)
      else Inr (length (filter (\<lambda>r. ShortCode r = shortCode \<and> IsActive r = True) rows) > 0))"

section \<open>Package cache\<close>

text \<open>
  Redis is a map from keys to a value and the lifetime it was stored with. Entries
  that Redis has dropped are not in the map an operation starts from.
\<close>

type_synonym redis = "string \<rightharpoonup> string \<times> int"

definition prefixKey :: "string \<Rightarrow> string" where
  "prefixKey key = ''urlshortener:'' @ key"

definition cache_Set :: "infra \<Rightarrow> redis \<Rightarrow> string \<Rightarrow> string \<Rightarrow> int \<Rightarrow> error option \<times> redis" where
  "cache_Set env c key val ttl =
     (if \<not> cache_up env then (Some (Errorf ''redis set failed''), c)
      else (None, c(prefixKey key \<mapsto> (val, ttl))))"

definition cache_Get :: "infra \<Rightarrow> redis \<Rightarrow> string \<Rightarrow> error + string" where
  "cache_Get env c key =
     (if \<not> cache_up env then Inl (Errorf ''redis get failed'')
      else case c (prefixKey key) of None \<Rightarrow> Inr [] | Some (val, ttl) \<Rightarrow> Inr val)"

definition cache_Delete :: "infra \<Rightarrow> redis \<Rightarrow> string \<Rightarrow> error option \<times> redis" where
  "cache_Delete env c key =
     (if \<not> cache_up env then (Some (Errorf ''redis delete failed''), c)
      else (None, c(prefixKey key := None)))"

section \<open>Package service\<close>

text \<open>
  The state the service works on is the table and the cache. Of \<open>Config\<close> the fields
  the service reads are kept. \<open>has_cache\<close> says that the field \<open>cache\<close> of the service
  is not \<open>nil\<close>. Calls of the logger have no effect on results and are left out. One
  call of the service reads one instant \<open>now\<close> from the clock.
\<close>

record Config =
  BaseURL :: string
  ShortCodeLength :: int
  CacheTTL :: int
  URLExpirationDays :: int

record urlService =
  cfg :: Config
  has_cache :: bool
  generator :: CodeGenerator

record world =
  urls :: "URL list"
  cache :: redis

definition NewURLService :: "bool \<Rightarrow> Config \<Rightarrow> urlService" where
  "NewURLService with_cache c =
     \<lparr>cfg = c, has_cache = with_cache, generator = NewCodeGenerator (ShortCodeLength c)\<rparr>"

definition buildResponse :: "urlService \<Rightarrow> URL \<Rightarrow> CreateURLResponse" where
  "buildResponse s url =
     \<lparr>resp_ShortCode = ShortCode url,
      resp_ShortURL = BaseURL (cfg s) @ ''/'' @ ShortCode url,
      resp_OriginalURL = OriginalURL url,
      resp_CreatedAt = CreatedAt url,
      resp_ExpiresAt = ExpiresAt url\<rparr>"

text \<open>
  \<open>generateUniqueShortCode\<close>: the loop \<open>for i := 0; i < maxRetries; i++\<close>, as a
  recursion on the number of rounds left. Each round draws a fresh code, so the next
  round reads the random source after the uses of this one.
\<close>

definition maxRetries :: nat where
  "maxRetries = 5"

fun generateUniqueShortCode_loop ::
  "nat \<Rightarrow> urlService \<Rightarrow> infra \<Rightarrow> URL list \<Rightarrow> rand_Reader \<Rightarrow> error + string" where
  "generateUniqueShortCode_loop 0 s env rows rd =
     Inl (Errorf ''failed to generate unique short code after 5 attempts'')"
| "generateUniqueShortCode_loop (Suc n) s env rows rd =
     (case Generate (generator s) rd of
        None \<Rightarrow> Inl Panic
      | Some shortCode \<Rightarrow>
          (case ExistsByShortCode env rows shortCode of
             Inl err \<Rightarrow> Inl err
           | Inr exists \<Rightarrow>
               if \<not> exists then Inr shortCode
               else generateUniqueShortCode_loop n s env rows (rand_skip (length shortCode) rd)))"

definition generateUniqueShortCode :: "urlService \<Rightarrow> infra \<Rightarrow> URL list \<Rightarrow> rand_Reader \<Rightarrow> error + string" where
  "generateUniqueShortCode s env rows rd = generateUniqueShortCode_loop maxRetries s env rows rd"

text \<open>Step 4 of \<open>ShortenURL\<close>: the custom alias, validated and checked, or a generated code.\<close>

definition ShortenURL_shortCode ::
  "urlService \<Rightarrow> infra \<Rightarrow> URL list \<Rightarrow> CreateURLRequest \<Rightarrow> rand_Reader \<Rightarrow> error + string" where
  "ShortenURL_shortCode s env rows req rd =
     (if req_CustomAlias req \<noteq> [] then
        (if \<not> ValidateShortCode (req_CustomAlias req)
         then Inl (NewValidationError ''Custom alias contains invalid characters'')
         else case ExistsByShortCode env rows (req_CustomAlias req) of
                Inl err \<Rightarrow> Inl (NewInternalError err)
              | Inr exists \<Rightarrow> if exists then Inl ErrShortCodeTaken else Inr (req_CustomAlias req))
      else
        (case generateUniqueShortCode s env rows rd of
           Inl err \<Rightarrow> Inl (NewInternalError err)
         | Inr shortCode \<Rightarrow> Inr shortCode))"

text \<open>Step 5: the expiration date.\<close>

definition ShortenURL_expiresAt :: "stdlib \<Rightarrow> urlService \<Rightarrow> CreateURLRequest \<Rightarrow> time \<Rightarrow> time option" where
  "ShortenURL_expiresAt lib s req now =
     (if req_ExpiryDays req > 0 then Some (time_AddDate_days lib now (req_ExpiryDays req))
      else if URLExpirationDays (cfg s) > 0
      then Some (time_AddDate_days lib now (URLExpirationDays (cfg s)))
      else None)"

definition ShortenURL ::
  "stdlib \<Rightarrow> urlService \<Rightarrow> infra \<Rightarrow> world \<Rightarrow> CreateURLRequest \<Rightarrow> string \<Rightarrow> time \<Rightarrow> rand_Reader
     \<Rightarrow> (error + CreateURLResponse) \<times> world" where
  "ShortenURL lib s env w req clientIP now rd =
     (case ValidateURL lib (req_URL req) of
        Some err \<Rightarrow> (Inl (NewValidationError ''Invalid URL format''), w)
      | None \<Rightarrow>
          let normalizedURL = NormalizeURL lib (req_URL req);
              existing =
                (case FindByOriginalURL env (urls w) normalizedURL of
                   Inl err \<Rightarrow> None
                 | Inr existingURL \<Rightarrow>
                     if \<not> IsExpired existingURL now then Some existingURL else None)
          in case existing of
               Some existingURL \<Rightarrow> (Inr (buildResponse s existingURL), w)
             | None \<Rightarrow>
                 (case ShortenURL_shortCode s env (urls w) req rd of
                    Inl err \<Rightarrow> (Inl err, w)
                  | Inr shortCode \<Rightarrow>
                      let url = \<lparr>ID = 0,
                                 ShortCode = shortCode,
                                 OriginalURL = normalizedURL,
                                 CreatedAt = 0,
                                 UpdatedAt = 0,
                                 ExpiresAt = ShortenURL_expiresAt lib s req now,
                                 ClickCount = 0,
                                 LastAccessAt = None,
                                 CreatorIP = clientIP,
                                 IsActive = True,
                                 CustomAlias = (req_CustomAlias req \<noteq> [])\<rparr>
                      in case Create env now (urls w) url of
                           Inl err \<Rightarrow> (Inl err, w)
                         | Inr (url', rows') \<Rightarrow>
                             (Inr (buildResponse s url'),
                              \<lparr>urls = rows',
                               cache = (if has_cache s
                                        then snd (cache_Set env (cache w) shortCode normalizedURL
                                                    (CacheTTL (cfg s)))
                                        else cache w)\<rparr>)))"

text \<open>
  \<open>GetOriginalURL\<close>. On a cache hit the click is counted by a goroutine that the call
  does not wait for: the third component of the result lists the codes for which such a
  task was started, and \<open>accounting_task\<close> is what one task does when it runs.
\<close>

definition GetOriginalURL ::
  "urlService \<Rightarrow> infra \<Rightarrow> world \<Rightarrow> string \<Rightarrow> time \<Rightarrow> (error + string) \<times> world \<times> string list" where
  "GetOriginalURL s env w shortCode now =
     (let hit =
            (if has_cache s then
               (case cache_Get env (cache w) shortCode of
                  Inl err \<Rightarrow> None
                | Inr cachedURL \<Rightarrow> if cachedURL \<noteq> [] then Some cachedURL else None)
             else None)
      in case hit of
           Some cachedURL \<Rightarrow> (Inr cachedURL, w, [shortCode])
         | None \<Rightarrow>
             (case FindByShortCode env (urls w) shortCode of
                Inl err \<Rightarrow> (Inl err, w, [])
              | Inr url \<Rightarrow>
                  if IsExpired url now then (Inl ErrURLExpired, w, [])
                  else
                    let rows' = snd (IncrementClickCount env now (urls w) shortCode);
                        cache' = (if has_cache s
                                  then snd (cache_Set env (cache w) shortCode (OriginalURL url)
                                              (CacheTTL (cfg s)))
                                  else cache w)
                    in (Inr (OriginalURL url), \<lparr>urls = rows', cache = cache'\<rparr>, [])))"

definition accounting_task :: "infra \<Rightarrow> world \<Rightarrow> string \<Rightarrow> time \<Rightarrow> world" where
  "accounting_task env w shortCode now =
     w\<lparr>urls := snd (IncrementClickCount env now (urls w) shortCode)\<rparr>"

definition DeleteURL :: "urlService \<Rightarrow> infra \<Rightarrow> world \<Rightarrow> string \<Rightarrow> time \<Rightarrow> error option \<times> world" where
  "DeleteURL s env w shortCode now =
     (case Delete env now (urls w) shortCode of
        (Some err, rows') \<Rightarrow> (Some err, w\<lparr>urls := rows'\<rparr>)
      | (None, rows') \<Rightarrow>
          (None,
           \<lparr>urls = rows',
            cache = (if has_cache s then snd (cache_Delete env (cache w) shortCode) else cache w)\<rparr>))"

section \<open>A model of the standard library on plain URLs\<close>

text \<open>
  \<open>golib\<close> gives the parameter \<open>stdlib\<close> a value that follows Go's \<open>net/url\<close> on the
  URLs of the shape \<open>scheme://host/path\<close> whose host is made of ASCII letters, digits
  and \<open>- . _ ~\<close> and whose path is made of these and \<open>/\<close>: no user, port, query,
  fragment or escape. There \<open>url.Parse\<close> returns the three parts (the scheme in lower
  case, no \<open>RawPath\<close>) and \<open>String\<close> escapes nothing. \<open>net_url_Parse\<close> follows
  \<open>Parse\<close>, \<open>parse\<close> and \<open>getScheme\<close>: it reports the two errors Go raises before it
  looks at the host (a control byte, a colon in front), and answers \<open>NotModelled\<close> for
  every other text outside that shape.

  Outside that shape \<open>golib\<close> is not Go: Go parses a URL with a query, a port, a user,
  an escape, a fragment or an empty host, and \<open>golib\<close> answers as if \<open>url.Parse\<close> had
  failed. No general statement below is about \<open>golib\<close> there: the theorems on the
  service hold for every \<open>stdlib\<close>, and \<open>golib\<close> is evaluated at plain URLs only
  (\<open>example_urls_plain\<close>).
\<close>

datatype parse_result = Parsed url_URL | ParseError string | NotModelled

definition ascii_letter :: "char \<Rightarrow> bool" where
  "ascii_letter c =
     (let b = (of_char c :: nat) in
      (of_char CHR ''a'' \<le> b \<and> b \<le> of_char CHR ''z'')
      \<or> (of_char CHR ''A'' \<le> b \<and> b \<le> of_char CHR ''Z''))"

definition ascii_digit :: "char \<Rightarrow> bool" where
  "ascii_digit c = (let b = (of_char c :: nat) in of_char CHR ''0'' \<le> b \<and> b \<le> of_char CHR ''9'')"

definition scheme_punct :: "char \<Rightarrow> bool" where
  "scheme_punct c = (ascii_digit c \<or> c = CHR ''+'' \<or> c = CHR ''-'' \<or> c = CHR ''.'')"

definition stringContainsCTLByte :: "string \<Rightarrow> bool" where
  "stringContainsCTLByte s = list_ex (\<lambda>c. (of_char c :: nat) < 32 \<or> (of_char c :: nat) = 127) s"

text \<open>
  \<open>getScheme\<close>: the loop over the bytes of \<open>rawURL\<close>; \<open>seen\<close> is \<open>rawURL[:i]\<close>, so
  \<open>i == 0\<close> is \<open>seen = []\<close>.
\<close>

fun getScheme_scan :: "string \<Rightarrow> string \<Rightarrow> string \<Rightarrow> string + (string \<times> string)" where
  "getScheme_scan rawURL seen [] = Inr ([], rawURL)"
| "getScheme_scan rawURL seen (c # cs) =
     (if ascii_letter c then getScheme_scan rawURL (seen @ [c]) cs
      else if scheme_punct c then
        (if seen = [] then Inr ([], rawURL) else getScheme_scan rawURL (seen @ [c]) cs)
      else if c = CHR '':'' then
        (if seen = [] then Inl ''missing protocol scheme'' else Inr (seen, cs))
      else Inr ([], rawURL))"

definition getScheme :: "string \<Rightarrow> string + (string \<times> string)" where
  "getScheme rawURL = getScheme_scan rawURL [] rawURL"

definition plain_host_byte :: "char \<Rightarrow> bool" where
  "plain_host_byte c =
     (ascii_letter c \<or> ascii_digit c \<or> c = CHR ''-'' \<or> c = CHR ''.'' \<or> c = CHR ''_'' \<or> c = CHR ''~'')"

definition plain_path_byte :: "char \<Rightarrow> bool" where
  "plain_path_byte c = (plain_host_byte c \<or> c = CHR ''/'')"

text \<open>An upper-case ASCII letter becomes the lower-case one by adding 32, its bit 5.\<close>

definition ascii_lower :: "char \<Rightarrow> char" where
  "ascii_lower c =
     (if of_char CHR ''A'' \<le> (of_char c :: nat) \<and> (of_char c :: nat) \<le> of_char CHR ''Z''
      then (case c of Char b0 b1 b2 b3 b4 b5 b6 b7 \<Rightarrow> Char b0 b1 b2 b3 b4 True b6 b7)
      else c)"

definition ascii_ToLower :: "string \<Rightarrow> string" where
  "ascii_ToLower s = map ascii_lower s"

definition net_url_Parse :: "string \<Rightarrow> parse_result" where
  "net_url_Parse rawURL =
     (if CHR ''#'' \<in> set rawURL then NotModelled
      else if stringContainsCTLByte rawURL
      then ParseError ''net/url: invalid control character in URL''
      else case getScheme rawURL of
             Inl e \<Rightarrow> ParseError e
           | Inr (scheme, rest) \<Rightarrow>
               if scheme \<noteq> [] \<and> prefix ''//'' rest then
                 (let authority = takeWhile (\<lambda>c. c \<noteq> CHR ''/'') (drop 2 rest);
                      path = dropWhile (\<lambda>c. c \<noteq> CHR ''/'') (drop 2 rest)
                  in if authority \<noteq> [] \<and> list_all plain_host_byte authority
                        \<and> list_all plain_path_byte path
                     then Parsed \<lparr>Scheme = ascii_ToLower scheme, Host = authority, Path = path\<rparr>
                     else NotModelled)
               else NotModelled)"

text \<open>
  \<open>String\<close> for a URL that has the three parts only, none of which needs an escape:
  the scheme and its colon, \<open>//\<close> and the host, a slash in front of a relative path,
  \<open>./\<close> in front of a first segment with a colon when nothing was written yet, the path.
\<close>

definition net_url_String :: "url_URL \<Rightarrow> string" where
  "net_url_String u =
     (let buf1 = (if Scheme u \<noteq> [] then Scheme u @ '':'' else []);
          buf2 = buf1 @ (if Scheme u \<noteq> [] \<or> Host u \<noteq> []
                         then (if Host u \<noteq> [] \<or> Path u \<noteq> [] then ''//'' else []) @ Host u
                         else []);
          buf3 = buf2 @ (if Path u \<noteq> [] \<and> hd (Path u) \<noteq> CHR ''/'' \<and> Host u \<noteq> []
                         then ''/'' else []);
          buf4 = buf3 @ (if buf3 = [] \<and> CHR '':'' \<in> set (takeWhile (\<lambda>c. c \<noteq> CHR ''/'') (Path u))
                         then ''./'' else [])
      in buf4 @ Path u)"

text \<open>
  \<open>urlRegex\<close> is \<^verbatim>\<open>^(https?|ftp)://[^\s/$.?#].[^\s]*$\<close>; on ASCII text a rune is a byte.
  \<open>\s\<close> is tab, newline, form feed, carriage return and space; \<open>.\<close> is any byte but
  newline.
\<close>

definition regexp_space :: "char \<Rightarrow> bool" where
  "regexp_space c = ((of_char c :: nat) \<in> {9, 10, 12, 13, 32})"

definition urlRegex_after :: "string \<Rightarrow> string \<Rightarrow> bool" where
  "urlRegex_after p s =
     (prefix p s \<and>
      (case drop (length p) s of
         c1 # c2 # tail \<Rightarrow>
           \<not> regexp_space c1 \<and> c1 \<noteq> CHR ''/'' \<and> c1 \<noteq> CHR ''$'' \<and> c1 \<noteq> CHR ''.''
           \<and> c1 \<noteq> CHR ''?'' \<and> c1 \<noteq> CHR ''#''
           \<and> (of_char c2 :: nat) \<noteq> 10
           \<and> list_all (\<lambda>c. \<not> regexp_space c) tail
       | _ \<Rightarrow> False))"

definition urlRegex_ascii :: "string \<Rightarrow> bool" where
  "urlRegex_ascii s =
     (urlRegex_after ''http://'' s \<or> urlRegex_after ''https://'' s \<or> urlRegex_after ''ftp://'' s)"

definition day :: int where
  "day = 86400000000000"

definition golib :: stdlib where
  "golib =
     \<lparr>url_Parse = (\<lambda>rawURL. case net_url_Parse rawURL of Parsed u \<Rightarrow> Some u | _ \<Rightarrow> None),
      url_String = net_url_String,
      urlRegex_MatchString = urlRegex_ascii,
      strings_ToLower = ascii_ToLower,
      time_AddDate_days = (\<lambda>t days. t + days * day)\<rparr>"

section \<open>Notions used in the statements\<close>

text \<open>
  \<open>candidate s rd k\<close> is the code that the call number \<open>k\<close> (from 0) of \<open>Generate\<close>
  draws within one run of \<open>generateUniqueShortCode\<close> on the random source \<open>rd\<close>.
\<close>

definition candidate :: "urlService \<Rightarrow> rand_Reader \<Rightarrow> nat \<Rightarrow> string" where
  "candidate s rd k =
     Generate_bytes (generator s) (rand_skip (k * nat (gen_length (generator s))) rd)"

text \<open>
  The shape of a scheme that \<open>getScheme\<close> accepts: a letter, then letters, digits and
  \<open>+ - .\<close>
\<close>

definition scheme_shaped :: "string \<Rightarrow> bool" where
  "scheme_shaped xs = (xs \<noteq> [] \<and> ascii_letter (hd xs)
     \<and> list_all (\<lambda>c. ascii_letter c \<or> scheme_punct c) xs)"

section \<open>Inputs of the examples\<close>

text \<open>
  Random sources: \<open>counting_reader\<close> yields 0, 1, 2, ...; \<open>constant_reader v\<close> yields
  \<open>v\<close> every time. \<open>wired_infra\<close> is a healthy database and cache behind a handle
  opened as \<open>initDatabase\<close> opens it, without \<open>TranslateError\<close>.
\<close>

definition counting_reader :: rand_Reader where
  "counting_reader k = Some k"

definition constant_reader :: "nat \<Rightarrow> rand_Reader" where
  "constant_reader v k = Some v"

definition wired_infra :: infra where
  "wired_infra = \<lparr>db_up = True, cache_up = True, TranslateError = False\<rparr>"

definition demo_cfg :: Config where
  "demo_cfg = \<lparr>BaseURL = ''http://localhost:8081'', ShortCodeLength = 6,
               CacheTTL = 3600000000000, URLExpirationDays = 0\<rparr>"

definition demo_service :: urlService where
  "demo_service = NewURLService True demo_cfg"

definition demo_service_no_cache :: urlService where
  "demo_service_no_cache = NewURLService False demo_cfg"

definition empty_world :: world where
  "empty_world = \<lparr>urls = [], cache = Map.empty\<rparr>"

text \<open>A table whose only row owns the code \<open>promo\<close> and was deleted (is inactive).\<close>

definition promo_row :: URL where
  "promo_row =
     \<lparr>ID = 1, ShortCode = ''promo'', OriginalURL = ''https://example.com/old'',
      CreatedAt = 0, UpdatedAt = 10, ExpiresAt = None, ClickCount = 3,
      LastAccessAt = Some 5, CreatorIP = ''10.0.0.1'', IsActive = False, CustomAlias = True\<rparr>"

definition promo_world :: world where
  "promo_world = \<lparr>urls = [promo_row], cache = Map.empty\<rparr>"


definition hyphen_request :: CreateURLRequest where
  "hyphen_request =
     \<lparr>req_URL = ''https://example.com/new'', req_CustomAlias = ''my-link'', req_ExpiryDays = 0\<rparr>"

definition plain_request :: CreateURLRequest where
  "plain_request =
     \<lparr>req_URL = ''https://example.com/new'', req_CustomAlias = [], req_ExpiryDays = 0\<rparr>"

text \<open>
  Tables with one row whose code is the first code that \<open>counting_reader\<close>, or
  \<open>constant_reader 0\<close>, makes the generator draw: active in \<open>taken_world\<close> and
  \<open>zeros_world\<close>, inactive in \<open>shadow_world\<close>.
\<close>

definition code_row :: "string \<Rightarrow> bool \<Rightarrow> URL" where
  "code_row code active =
     \<lparr>ID = 1, ShortCode = code, OriginalURL = ''https://example.com/old'',
      CreatedAt = 0, UpdatedAt = 0, ExpiresAt = None, ClickCount = 0,
      LastAccessAt = None, CreatorIP = ''10.0.0.1'', IsActive = active, CustomAlias = False\<rparr>"

definition taken_world :: world where
  "taken_world = \<lparr>urls = [code_row ''012345'' True], cache = Map.empty\<rparr>"

definition zeros_world :: world where
  "zeros_world = \<lparr>urls = [code_row ''000000'' True], cache = Map.empty\<rparr>"

definition shadow_world :: world where
  "shadow_world = \<lparr>urls = [code_row ''012345'' False], cache = Map.empty\<rparr>"

text \<open>An active row that expired at instant 50.\<close>

definition expired_row :: URL where
  "expired_row =
     \<lparr>ID = 1, ShortCode = ''abc123'', OriginalURL = ''https://example.com/expired'',
      CreatedAt = 0, UpdatedAt = 0, ExpiresAt = Some 50, ClickCount = 0,
      LastAccessAt = None, CreatorIP = ''10.0.0.1'', IsActive = True, CustomAlias = False\<rparr>"

definition expired_world :: world where
  "expired_world = \<lparr>urls = [expired_row], cache = Map.empty\<rparr>"

text \<open>
  Two shortenings of one page: the first asks for one day of life, at instant 0; the
  second, two days later, finds that mapping expired and makes a second one, which never
  expires. \<open>page_world\<close> is the table after both.
\<close>

definition page_request_one_day :: CreateURLRequest where
  "page_request_one_day =
     \<lparr>req_URL = ''https://example.com/page'', req_CustomAlias = [], req_ExpiryDays = 1\<rparr>"

definition page_request :: CreateURLRequest where
  "page_request =
     \<lparr>req_URL = ''https://example.com/page'', req_CustomAlias = [], req_ExpiryDays = 0\<rparr>"

definition page_row_first :: URL where
  "page_row_first =
     \<lparr>ID = 1, ShortCode = ''000000'', OriginalURL = ''https://example.com/page'',
      CreatedAt = 0, UpdatedAt = 0, ExpiresAt = Some day, ClickCount = 0,
      LastAccessAt = None, CreatorIP = ''10.0.0.2'', IsActive = True, CustomAlias = False\<rparr>"

definition page_row_second :: URL where
  "page_row_second =
     \<lparr>ID = 2, ShortCode = ''222222'', OriginalURL = ''https://example.com/page'',
      CreatedAt = 2 * day, UpdatedAt = 2 * day, ExpiresAt = None, ClickCount = 0,
      LastAccessAt = None, CreatorIP = ''10.0.0.2'', IsActive = True, CustomAlias = False\<rparr>"

definition page_row_third :: URL where
  "page_row_third =
     \<lparr>ID = 3, ShortCode = ''444444'', OriginalURL = ''https://example.com/page'',
      CreatedAt = 2 * day + 1, UpdatedAt = 2 * day + 1, ExpiresAt = None, ClickCount = 0,
      LastAccessAt = None, CreatorIP = ''10.0.0.2'', IsActive = True, CustomAlias = False\<rparr>"

definition page_world :: world where
  "page_world = \<lparr>urls = [page_row_first, page_row_second], cache = Map.empty\<rparr>"

section \<open>The code generator: length, alphabet and decoding\<close>

lemma length_base62Chars: "length base62Chars = 62"
  by (simp add: base62Chars_def)

lemma gen_length_NewCodeGenerator:
  "gen_length (NewCodeGenerator n) = (if n < 4 then 6 else if n > 12 then 12 else n)"
  by (simp add: NewCodeGenerator_def Let_def)

lemma Generate_index_less: "Generate_index rd i < 62"
  by (simp add: Generate_index_def rand_Int_def length_base62Chars split: option.splits)

lemma Generate_bytes_alphabet: "set (Generate_bytes g rd) \<subseteq> set base62Chars"
  using Generate_index_less [of rd]
  by (auto simp: Generate_bytes_def length_base62Chars)

lemma length_Generate_bytes: "length (Generate_bytes g rd) = nat (gen_length g)"
  by (simp add: Generate_bytes_def)

text \<open>
  Claim C5, as the code has it: for every configured length \<open>n\<close> and every behaviour of
  the random source, \<open>Generate\<close> of the generator built by \<open>NewCodeGenerator n\<close> returns
  a code made of base62 symbols only, whose length is \<open>n\<close> when \<open>4 \<le> n \<le> 12\<close>, 12 when
  \<open>n > 12\<close>, and 6 (not 4) when \<open>n < 4\<close>.
\<close>

theorem Generate_length_alphabet:
  "\<exists>code. Generate (NewCodeGenerator n) rd = Some code
     \<and> int (length code) = (if n < 4 then 6 else if n > 12 then 12 else n)
     \<and> set code \<subseteq> set base62Chars"
proof -
  let ?g = "NewCodeGenerator n"
  have nonneg: "0 \<le> gen_length ?g"
    by (simp add: gen_length_NewCodeGenerator)
  then have returns: "Generate ?g rd = Some (Generate_bytes ?g rd)"
    by (simp add: Generate_def)
  have len: "int (length (Generate_bytes ?g rd)) = (if n < 4 then 6 else if n > 12 then 12 else n)"
    using nonneg by (simp add: length_Generate_bytes gen_length_NewCodeGenerator)
  from returns len Generate_bytes_alphabet show ?thesis
    by blast
qed

text \<open>
  Claim C5 as stated fails: with the configured length 3, clamping into \<open>[4,12]\<close> gives 4,
  and the generator returns six symbols.
\<close>

theorem Generate_length_not_clamped:
  "Generate (NewCodeGenerator 3) counting_reader = Some ''012345''
   \<and> int (length ''012345'') \<noteq> max 4 (min 12 3)"
  by (simp add: Generate_def Generate_bytes_def gen_length_NewCodeGenerator counting_reader_def
      Generate_index_def rand_Int_def upt_rec base62Chars_def)

lemma Decode_value_symbol: "r < 62 \<Longrightarrow> Decode_value (base62Chars ! r) = Some (of_nat r)"
proof -
  have "list_all (\<lambda>r. Decode_value (base62Chars ! r) = Some (of_nat r)) [0..<62]"
    by (simp add: upt_rec Decode_value_def base62Chars_def)
  moreover assume "r < 62"
  ultimately show ?thesis
    by (simp add: list_all_iff)
qed

lemma Decode_value_digit:
  "Decode_value (base62Chars ! unat ((num :: 64 word) mod 62)) = Some (num mod 62)"
proof -
  have "unat (num mod 62) < 62"
    by (simp add: unat_mod_distrib)
  then show ?thesis
    by (simp add: Decode_value_symbol)
qed

lemma Decode_loop_convert:
  "Decode_loop 0 (GenerateFromID_convert num result) = Decode_loop num result"
proof (induction num result rule: GenerateFromID_convert.induct)
  case (1 num result)
  show ?case
  proof (cases "0 < num")
    case True
    have "Decode_loop 0 (GenerateFromID_convert num result)
        = Decode_loop 0 (GenerateFromID_convert (num div 62) (base62Chars ! unat (num mod 62) # result))"
      using True by (subst GenerateFromID_convert.simps) simp
    also have "\<dots> = Decode_loop (num div 62) (base62Chars ! unat (num mod 62) # result)"
      using True by (rule "1.IH")
    also have "\<dots> = Decode_loop (num div 62 * 62 + num mod 62) result"
      by (simp add: Decode_value_digit)
    also have "num div 62 * 62 + num mod 62 = num"
      by (rule div_mult_mod_eq)
    finally show ?thesis .
  next
    case False
    then have "num = 0"
      by (simp add: word_greater_zero_iff)
    then show ?thesis
      by (subst GenerateFromID_convert.simps) simp
  qed
qed

lemma Decode_loop_pad:
  "Decode_loop 0 (GenerateFromID_pad len result) = Decode_loop 0 result"
proof (induction len result rule: GenerateFromID_pad.induct)
  case (1 len result)
  have zero: "Decode_value (base62Chars ! 0) = Some 0"
    using Decode_value_symbol [of 0] by simp
  show ?case
  proof (cases "int (length result) < len")
    case True
    then have "Decode_loop 0 (GenerateFromID_pad len result)
        = Decode_loop 0 (GenerateFromID_pad len (base62Chars ! 0 # result))"
      by (subst GenerateFromID_pad.simps) simp
    also have "\<dots> = Decode_loop 0 (base62Chars ! 0 # result)"
      using True by (rule "1.IH")
    also have "\<dots> = Decode_loop 0 result"
      by (simp add: zero)
    finally show ?thesis .
  next
    case False
    then show ?thesis
      by (subst GenerateFromID_pad.simps) simp
  qed
qed

lemma Decode_GenerateFromID:
  assumes "GenerateFromID g ident = Some code"
  shows "Decode g' code = ident"
proof (cases "ident = 0")
  case True
  with assms have "code = [base62Chars ! 0]"
    by (simp add: GenerateFromID_def)
  then show ?thesis
    using True Decode_value_symbol [of 0] by (simp add: Decode_def)
next
  case False
  with assms have "code = GenerateFromID_pad (gen_length g) (GenerateFromID_convert ident [])"
    by (simp add: GenerateFromID_def split: if_splits)
  then show ?thesis
    by (simp add: Decode_def Decode_loop_pad Decode_loop_convert)
qed

lemma GenerateFromID_returns:
  "0 \<le> gen_length g \<Longrightarrow> \<exists>code. GenerateFromID g ident = Some code"
  by (simp add: GenerateFromID_def)

text \<open>
  Claim C8: for every 64-bit unsigned \<open>ident\<close> and every configured length \<open>n\<close>,
  \<open>GenerateFromID\<close> returns a code and \<open>Decode\<close> of that code is \<open>ident\<close>; hence
  \<open>GenerateFromID\<close> is injective.
\<close>

theorem Decode_inverts_GenerateFromID:
  "(\<exists>code. GenerateFromID (NewCodeGenerator n) ident = Some code
        \<and> Decode (NewCodeGenerator n) code = ident)
   \<and> inj (GenerateFromID (NewCodeGenerator n))"
proof
  let ?g = "NewCodeGenerator n"
  have nonneg: "0 \<le> gen_length ?g"
    by (simp add: gen_length_NewCodeGenerator)
  show "\<exists>code. GenerateFromID ?g ident = Some code \<and> Decode ?g code = ident"
    using GenerateFromID_returns [OF nonneg, of ident] Decode_GenerateFromID by blast
  show "inj (GenerateFromID ?g)"
  proof (rule injI)
    fix a b
    assume eq: "GenerateFromID ?g a = GenerateFromID ?g b"
    obtain code where a: "GenerateFromID ?g a = Some code"
      using GenerateFromID_returns [OF nonneg] by blast
    with eq have b: "GenerateFromID ?g b = Some code"
      by simp
    from a have "Decode ?g code = a"
      by (rule Decode_GenerateFromID)
    moreover from b have "Decode ?g code = b"
      by (rule Decode_GenerateFromID)
    ultimately show "a = b"
      by simp
  qed
qed

lemma GenerateFromID_pad_eq:
  "GenerateFromID_pad len result
     = replicate (nat (len - int (length result))) (base62Chars ! 0) @ result"
proof (induction len result rule: GenerateFromID_pad.induct)
  case (1 len result)
  show ?case
  proof (cases "int (length result) < len")
    case True
    then have "nat (len - int (length result))
        = Suc (nat (len - int (length (base62Chars ! 0 # result))))"
      by simp
    with True "1.IH" show ?thesis
      by (subst GenerateFromID_pad.simps) (simp add: replicate_append_same)
  next
    case False
    then show ?thesis
      by (subst GenerateFromID_pad.simps) simp
  qed
qed

text \<open>
  The padding that claim C9 describes is what the code does for every \<open>ident\<close> other
  than 0: the digits, with zero symbols in front up to the configured length.
\<close>

lemma GenerateFromID_nonzero_padded:
  assumes "ident \<noteq> 0" and "0 \<le> gen_length g"
  shows "GenerateFromID g ident
     = Some (replicate (nat (gen_length g - int (length (GenerateFromID_convert ident []))))
               (base62Chars ! 0) @ GenerateFromID_convert ident [])"
  using assms by (simp add: GenerateFromID_def GenerateFromID_pad_eq)

text \<open>
  Claim C9 at \<open>ident = 0\<close>: the early return gives the one-symbol code \<open>0\<close>, which is
  not padded to the configured length 6.
\<close>

theorem GenerateFromID_zero_not_padded:
  "GenerateFromID (NewCodeGenerator 6) 0 = Some ''0''
   \<and> gen_length (NewCodeGenerator 6) = 6"
  by (simp add: GenerateFromID_def base62Chars_def gen_length_NewCodeGenerator)

section \<open>The store and the service\<close>

lemma filter_none: "\<not> list_ex P xs \<Longrightarrow> filter P xs = []"
  by (induction xs) auto

lemma ExistsByShortCode_inactive:
  assumes "db_up env" and "\<forall>r\<in>set rows. ShortCode r = code \<longrightarrow> \<not> IsActive r"
  shows "ExistsByShortCode env rows code = Inr False"
proof -
  from assms(2) have "\<not> list_ex (\<lambda>r. ShortCode r = code \<and> IsActive r = True) rows"
    by (auto simp: list_ex_iff)
  then have "filter (\<lambda>r. ShortCode r = code \<and> IsActive r = True) rows = []"
    by (rule filter_none)
  with assms(1) show ?thesis
    by (simp add: ExistsByShortCode_def)
qed


lemma Create_fresh:
  assumes "db_up env" and "\<forall>r\<in>set rows. ShortCode r \<noteq> ShortCode url"
    and "length (ShortCode url) \<le> 12" and "length (CreatorIP url) \<le> 45"
  shows "Create env now rows url =
     Inr (url\<lparr>ID := next_id rows, CreatedAt := now, UpdatedAt := now\<rparr>,
          rows @ [url\<lparr>ID := next_id rows, CreatedAt := now, UpdatedAt := now\<rparr>])"
proof -
  from assms(2) have "\<not> list_ex (\<lambda>r. ShortCode r = ShortCode url) rows"
    by (auto simp: list_ex_iff)
  with assms(1,3,4) show ?thesis
    by (simp add: Create_def gorm_Create_def Let_def)
qed

text \<open>
  What \<open>ShortenURL\<close> does once the URL is valid and no live mapping of the target was
  found: steps 4 to 8.
\<close>

lemma ShortenURL_past_dedup:
  assumes "ValidateURL lib (req_URL req) = None"
    and "case FindByOriginalURL env (urls w) (NormalizeURL lib (req_URL req)) of
           Inl err \<Rightarrow> True | Inr existingURL \<Rightarrow> IsExpired existingURL now"
  shows "ShortenURL lib s env w req clientIP now rd =
     (case ShortenURL_shortCode s env (urls w) req rd of
        Inl err \<Rightarrow> (Inl err, w)
      | Inr shortCode \<Rightarrow>
          (case Create env now (urls w)
                  \<lparr>ID = 0, ShortCode = shortCode,
                   OriginalURL = NormalizeURL lib (req_URL req),
                   CreatedAt = 0, UpdatedAt = 0,
                   ExpiresAt = ShortenURL_expiresAt lib s req now,
                   ClickCount = 0, LastAccessAt = None, CreatorIP = clientIP,
                   IsActive = True, CustomAlias = (req_CustomAlias req \<noteq> [])\<rparr> of
             Inl err \<Rightarrow> (Inl err, w)
           | Inr (url', rows') \<Rightarrow>
               (Inr (buildResponse s url'),
                \<lparr>urls = rows',
                 cache = (if has_cache s
                          then snd (cache_Set env (cache w) shortCode
                                      (NormalizeURL lib (req_URL req)) (CacheTTL (cfg s)))
                          else cache w)\<rparr>)))"
proof -
  have "(case FindByOriginalURL env (urls w) (NormalizeURL lib (req_URL req)) of
           Inl err \<Rightarrow> None
         | Inr existingURL \<Rightarrow> if \<not> IsExpired existingURL now then Some existingURL else None) = None"
    using assms(2) by (auto split: sum.splits)
  then show ?thesis
    unfolding ShortenURL_def using assms(1) by (simp add: Let_def split: sum.splits)
qed


text \<open>
  Claim C6, as the code has it: a custom code with which \<open>ShortenURL\<close> goes on past
  validation has between 2 and 50 bytes, each a letter, a digit, \<open>_\<close> or \<open>-\<close>: the rule
  of \<open>ValidateShortCode\<close>, not the generator's \<open>IsValid\<close>.
\<close>

theorem accepted_custom_code_format:
  assumes valid: "ValidateURL lib (req_URL req) = None"
    and nodedup: "case FindByOriginalURL env (urls w) (NormalizeURL lib (req_URL req)) of
           Inl err \<Rightarrow> True | Inr existingURL \<Rightarrow> IsExpired existingURL now"
    and custom: "req_CustomAlias req \<noteq> []"
    and accepted: "fst (ShortenURL lib s env w req clientIP now rd)
        \<noteq> Inl (NewValidationError ''Custom alias contains invalid characters'')"
  shows "2 \<le> length (req_CustomAlias req) \<and> length (req_CustomAlias req) \<le> 50
     \<and> list_all shortCodeRegex_class (req_CustomAlias req)"
proof -
  have "ValidateShortCode (req_CustomAlias req)"
  proof (rule ccontr)
    assume "\<not> ValidateShortCode (req_CustomAlias req)"
    with custom have "ShortenURL_shortCode s env (urls w) req rd
        = Inl (NewValidationError ''Custom alias contains invalid characters'')"
      by (simp add: ShortenURL_shortCode_def)
    then have "fst (ShortenURL lib s env w req clientIP now rd)
        = Inl (NewValidationError ''Custom alias contains invalid characters'')"
      unfolding ShortenURL_past_dedup [OF valid nodedup] by simp
    with accepted show False by simp
  qed
  then show ?thesis
    by (simp add: ValidateShortCode_def shortCodeRegex_MatchString_def split: if_splits)
qed


lemma rand_skip_0: "rand_skip 0 rd = rd"
  by (simp add: rand_skip_def)

lemma rand_skip_rand_skip: "rand_skip a (rand_skip b rd) = rand_skip (b + a) rd"
  by (simp add: rand_skip_def add.assoc)

lemma Generate_candidate:
  "0 \<le> gen_length (generator s) \<Longrightarrow>
   Generate (generator s) (rand_skip (j * nat (gen_length (generator s))) rd)
     = Some (candidate s rd j)"
  by (simp add: Generate_def candidate_def)

lemma length_candidate: "length (candidate s rd j) = nat (gen_length (generator s))"
  by (simp add: candidate_def Generate_bytes_def)

lemma loop_step:
  assumes "0 \<le> gen_length (generator s)"
  shows "generateUniqueShortCode_loop (Suc n) s env rows
           (rand_skip (j * nat (gen_length (generator s))) rd)
     = (case ExistsByShortCode env rows (candidate s rd j) of
          Inl err \<Rightarrow> Inl err
        | Inr exists \<Rightarrow>
            if \<not> exists then Inr (candidate s rd j)
            else generateUniqueShortCode_loop n s env rows
                   (rand_skip (Suc j * nat (gen_length (generator s))) rd))"
  by (simp add: Generate_candidate [OF assms] length_candidate rand_skip_rand_skip add.commute
      split: sum.splits)

lemma loop_finds:
  assumes g: "0 \<le> gen_length (generator s)"
  shows "\<forall>k<K. ExistsByShortCode env rows (candidate s rd (j + k)) = Inr True
     \<Longrightarrow> ExistsByShortCode env rows (candidate s rd (j + K)) = Inr False
     \<Longrightarrow> K < n
     \<Longrightarrow> generateUniqueShortCode_loop n s env rows
           (rand_skip (j * nat (gen_length (generator s))) rd)
         = Inr (candidate s rd (j + K))"
proof (induction K arbitrary: j n)
  case 0
  then obtain m where n: "n = Suc m"
    by (cases n) auto
  show ?case
    unfolding n loop_step [OF g] using "0.prems"(2) by simp
next
  case (Suc K)
  then obtain m where n: "n = Suc m" and m: "K < m"
    by (cases n) auto
  have first: "ExistsByShortCode env rows (candidate s rd j) = Inr True"
    using Suc.prems(1) [rule_format, of 0] by simp
  have rest: "\<forall>k<K. ExistsByShortCode env rows (candidate s rd (Suc j + k)) = Inr True"
  proof (intro allI impI)
    fix k assume "k < K"
    then have "Suc k < Suc K" by simp
    from Suc.prems(1) [rule_format, OF this] show
      "ExistsByShortCode env rows (candidate s rd (Suc j + k)) = Inr True"
      by simp
  qed
  have free: "ExistsByShortCode env rows (candidate s rd (Suc j + K)) = Inr False"
    using Suc.prems(2) by simp
  have "generateUniqueShortCode_loop m s env rows
          (rand_skip (Suc j * nat (gen_length (generator s))) rd)
      = Inr (candidate s rd (Suc j + K))"
    using rest free m by (rule Suc.IH)
  then show ?case
    unfolding n loop_step [OF g] using first by simp
qed

lemma loop_exhausted:
  assumes g: "0 \<le> gen_length (generator s)"
  shows "\<forall>k<n. ExistsByShortCode env rows (candidate s rd (j + k)) = Inr True
     \<Longrightarrow> generateUniqueShortCode_loop n s env rows
           (rand_skip (j * nat (gen_length (generator s))) rd)
         = Inl (Errorf ''failed to generate unique short code after 5 attempts'')"
proof (induction n arbitrary: j)
  case 0
  show ?case by simp
next
  case (Suc n)
  have first: "ExistsByShortCode env rows (candidate s rd j) = Inr True"
    using Suc.prems [rule_format, of 0] by simp
  have rest: "\<forall>k<n. ExistsByShortCode env rows (candidate s rd (Suc j + k)) = Inr True"
  proof (intro allI impI)
    fix k assume "k < n"
    then have "Suc k < Suc n" by simp
    from Suc.prems [rule_format, OF this] show
      "ExistsByShortCode env rows (candidate s rd (Suc j + k)) = Inr True"
      by simp
  qed
  from rest have "generateUniqueShortCode_loop n s env rows
          (rand_skip (Suc j * nat (gen_length (generator s))) rd)
      = Inl (Errorf ''failed to generate unique short code after 5 attempts'')"
    by (rule Suc.IH)
  then show ?case
    unfolding loop_step [OF g] using first by simp
qed

lemma generator_NewURLService:
  "0 \<le> gen_length (generator (NewURLService with_cache c))
   \<and> gen_length (generator (NewURLService with_cache c)) \<le> 12"
  by (simp add: NewURLService_def gen_length_NewCodeGenerator)

lemma generateUniqueShortCode_finds:
  assumes "0 \<le> gen_length (generator s)"
    and "\<forall>k<K. ExistsByShortCode env rows (candidate s rd k) = Inr True"
    and "ExistsByShortCode env rows (candidate s rd K) = Inr False"
    and "K < 5"
  shows "generateUniqueShortCode s env rows rd = Inr (candidate s rd K)"
  using loop_finds [OF assms(1), of K env rows rd 0 maxRetries] assms(2-4)
  by (simp add: generateUniqueShortCode_def maxRetries_def rand_skip_0)

lemma generateUniqueShortCode_exhausted:
  assumes "0 \<le> gen_length (generator s)"
    and "\<forall>k<5. ExistsByShortCode env rows (candidate s rd k) = Inr True"
  shows "generateUniqueShortCode s env rows rd
     = Inl (Errorf ''failed to generate unique short code after 5 attempts'')"
  using loop_exhausted [OF assms(1), of maxRetries env rows rd 0] assms(2)
  by (simp add: generateUniqueShortCode_def maxRetries_def rand_skip_0)

text \<open>
  The retry of claim C4 does what the claim says as long as no row at all, active or
  not, owns the candidate that the store reports as free (and the client address fits
  its column): for a valid request without a custom code that is not answered by
  deduplication, when the store reports the first \<open>K < 5\<close> candidates as existing,
  candidate \<open>K + 1\<close> is persisted; when it reports all five as existing, the shorten
  fails with the generation error and nothing changes.
\<close>

lemma collision_retry:
  assumes svc: "s = NewURLService with_cache c"
    and valid: "ValidateURL lib (req_URL req) = None"
    and nodedup: "case FindByOriginalURL env (urls w) (NormalizeURL lib (req_URL req)) of
           Inl err \<Rightarrow> True | Inr existingURL \<Rightarrow> IsExpired existingURL now"
    and nocustom: "req_CustomAlias req = []"
  shows "(K < 5
      \<and> (\<forall>k<K. ExistsByShortCode env (urls w) (candidate s rd k) = Inr True)
      \<and> ExistsByShortCode env (urls w) (candidate s rd K) = Inr False
      \<and> (\<forall>r\<in>set (urls w). ShortCode r \<noteq> candidate s rd K)
      \<and> length clientIP \<le> 45
      \<longrightarrow> ShortenURL lib s env w req clientIP now rd =
          (Inr (buildResponse s
                 \<lparr>ID = next_id (urls w), ShortCode = candidate s rd K,
                  OriginalURL = NormalizeURL lib (req_URL req),
                  CreatedAt = now, UpdatedAt = now,
                  ExpiresAt = ShortenURL_expiresAt lib s req now,
                  ClickCount = 0, LastAccessAt = None, CreatorIP = clientIP,
                  IsActive = True, CustomAlias = False\<rparr>),
           \<lparr>urls = urls w @
               [\<lparr>ID = next_id (urls w), ShortCode = candidate s rd K,
                 OriginalURL = NormalizeURL lib (req_URL req),
                 CreatedAt = now, UpdatedAt = now,
                 ExpiresAt = ShortenURL_expiresAt lib s req now,
                 ClickCount = 0, LastAccessAt = None, CreatorIP = clientIP,
                 IsActive = True, CustomAlias = False\<rparr>],
            cache = (if has_cache s
                     then snd (cache_Set env (cache w) (candidate s rd K)
                                 (NormalizeURL lib (req_URL req)) (CacheTTL (cfg s)))
                     else cache w)\<rparr>))
    \<and> ((\<forall>k<5. ExistsByShortCode env (urls w) (candidate s rd k) = Inr True)
      \<longrightarrow> ShortenURL lib s env w req clientIP now rd =
          (Inl (NewInternalError
                 (Errorf ''failed to generate unique short code after 5 attempts'')), w))"
proof (intro conjI impI)
  have g: "0 \<le> gen_length (generator s)" and g12: "gen_length (generator s) \<le> 12"
    using generator_NewURLService [of with_cache c] svc by simp_all
  {
    assume a: "K < 5
      \<and> (\<forall>k<K. ExistsByShortCode env (urls w) (candidate s rd k) = Inr True)
      \<and> ExistsByShortCode env (urls w) (candidate s rd K) = Inr False
      \<and> (\<forall>r\<in>set (urls w). ShortCode r \<noteq> candidate s rd K)
      \<and> length clientIP \<le> 45"
    then have gen: "generateUniqueShortCode s env (urls w) rd = Inr (candidate s rd K)"
      using generateUniqueShortCode_finds [OF g, of K env "urls w" rd] by simp
    have code: "ShortenURL_shortCode s env (urls w) req rd = Inr (candidate s rd K)"
      using nocustom gen by (simp add: ShortenURL_shortCode_def)
    have up: "db_up env"
      using a by (auto simp: ExistsByShortCode_def split: if_splits)
    have len: "length (candidate s rd K) \<le> 12"
      using g g12 by (simp add: length_candidate)
    let ?url = "\<lparr>ID = 0, ShortCode = candidate s rd K,
                  OriginalURL = NormalizeURL lib (req_URL req),
                  CreatedAt = 0, UpdatedAt = 0,
                  ExpiresAt = ShortenURL_expiresAt lib s req now,
                  ClickCount = 0, LastAccessAt = None, CreatorIP = clientIP,
                  IsActive = True, CustomAlias = (req_CustomAlias req \<noteq> [])\<rparr>"
    have "Create env now (urls w) ?url =
       Inr (?url\<lparr>ID := next_id (urls w), CreatedAt := now, UpdatedAt := now\<rparr>,
            urls w @ [?url\<lparr>ID := next_id (urls w), CreatedAt := now, UpdatedAt := now\<rparr>])"
      using a len by (intro Create_fresh [OF up]) simp_all
    then show "ShortenURL lib s env w req clientIP now rd =
          (Inr (buildResponse s
                 \<lparr>ID = next_id (urls w), ShortCode = candidate s rd K,
                  OriginalURL = NormalizeURL lib (req_URL req),
                  CreatedAt = now, UpdatedAt = now,
                  ExpiresAt = ShortenURL_expiresAt lib s req now,
                  ClickCount = 0, LastAccessAt = None, CreatorIP = clientIP,
                  IsActive = True, CustomAlias = False\<rparr>),
           \<lparr>urls = urls w @
               [\<lparr>ID = next_id (urls w), ShortCode = candidate s rd K,
                 OriginalURL = NormalizeURL lib (req_URL req),
                 CreatedAt = now, UpdatedAt = now,
                 ExpiresAt = ShortenURL_expiresAt lib s req now,
                 ClickCount = 0, LastAccessAt = None, CreatorIP = clientIP,
                 IsActive = True, CustomAlias = False\<rparr>],
            cache = (if has_cache s
                     then snd (cache_Set env (cache w) (candidate s rd K)
                                 (NormalizeURL lib (req_URL req)) (CacheTTL (cfg s)))
                     else cache w)\<rparr>)"
      unfolding ShortenURL_past_dedup [OF valid nodedup] code
      using nocustom by simp
  }
  {
    assume "\<forall>k<5. ExistsByShortCode env (urls w) (candidate s rd k) = Inr True"
    then have "generateUniqueShortCode s env (urls w) rd
        = Inl (Errorf ''failed to generate unique short code after 5 attempts'')"
      by (rule generateUniqueShortCode_exhausted [OF g])
    then have "ShortenURL_shortCode s env (urls w) req rd
        = Inl (NewInternalError (Errorf ''failed to generate unique short code after 5 attempts''))"
      using nocustom by (simp add: ShortenURL_shortCode_def)
    then show "ShortenURL lib s env w req clientIP now rd =
          (Inl (NewInternalError
                 (Errorf ''failed to generate unique short code after 5 attempts'')), w)"
      unfolding ShortenURL_past_dedup [OF valid nodedup] by simp
  }
qed


lemma gorm_First_single: "gorm_First [u] = Some u"
  by (simp add: gorm_First_def)

lemma filter_distinct_key:
  "distinct (map f xs) \<Longrightarrow> u \<in> set xs \<Longrightarrow> P u
     \<Longrightarrow> filter (\<lambda>r. f r = f u \<and> P r) xs = [u]"
proof (induction xs)
  case Nil
  then show ?case by simp
next
  case (Cons x xs)
  show ?case
  proof (cases "x = u")
    case True
    from Cons.prems(1) have "f u \<notin> f ` set xs"
      using True by simp
    then have "filter (\<lambda>r. f r = f u \<and> P r) xs = []"
      by (force simp: filter_empty_conv image_iff)
    with True Cons.prems(3) show ?thesis by simp
  next
    case False
    with Cons.prems have u: "u \<in> set xs" by simp
    with Cons.prems(1) have "f x \<noteq> f u" by auto
    moreover have "filter (\<lambda>r. f r = f u \<and> P r) xs = [u]"
      using Cons.IH Cons.prems(1,3) u by simp
    ultimately show ?thesis by simp
  qed
qed

lemma FindByShortCode_unique:
  assumes "db_up env" "distinct (map ShortCode rows)" "u \<in> set rows" "IsActive u"
  shows "FindByShortCode env rows (ShortCode u) = Inr u"
proof -
  have "filter (\<lambda>r. ShortCode r = ShortCode u \<and> IsActive r = True) rows = [u]"
    using filter_distinct_key [of ShortCode rows u "\<lambda>r. IsActive r = True"] assms by simp
  then show ?thesis
    using assms(1) by (simp add: FindByShortCode_def gorm_First_single)
qed

lemma map_if_none: "\<not> list_ex P xs \<Longrightarrow> map (\<lambda>r. if P r then f r else r) xs = xs"
  by (induction xs) auto

text \<open>
  Claim C2: when the cache gives no hit (there is no cache, the cache fails, has no
  entry for the code or an empty one) and the row of the code is active with \<open>ExpiresAt\<close> before
  \<open>now\<close>, \<open>GetOriginalURL\<close> fails with \<open>ErrURLExpired\<close>, starts no accounting task and
  leaves the table and the cache as they were. The schema makes codes unique.
\<close>

theorem GetOriginalURL_expired:
  assumes up: "db_up env"
    and miss: "\<not> has_cache s \<or> \<not> cache_up env \<or> cache w (prefixKey shortCode) = None
        \<or> (\<exists>ttl. cache w (prefixKey shortCode) = Some ([], ttl))"
    and row: "u \<in> set (urls w)" "ShortCode u = shortCode" "IsActive u"
    and unique: "distinct (map ShortCode (urls w))"
    and expired: "ExpiresAt u = Some e" "e < now"
  shows "GetOriginalURL s env w shortCode now = (Inl ErrURLExpired, w, [])"
proof -
  have find: "FindByShortCode env (urls w) shortCode = Inr u"
    using FindByShortCode_unique [OF up unique row(1) row(3)] row(2) by simp
  have exp: "IsExpired u now"
    using expired by (simp add: IsExpired_def)
  have nohit: "(if has_cache s then
               (case cache_Get env (cache w) shortCode of
                  Inl err \<Rightarrow> None
                | Inr cachedURL \<Rightarrow> if cachedURL \<noteq> [] then Some cachedURL else None)
             else None) = None"
    using miss by (auto simp: cache_Get_def)
  show ?thesis
    unfolding GetOriginalURL_def nohit Let_def by (simp add: find exp)
qed

text \<open>
  Claim C2 at an input: the code \<open>abc123\<close> expired at 50 and is resolved at 100.
\<close>

theorem GetOriginalURL_expired_witness:
  "db_up wired_infra
   \<and> cache expired_world (prefixKey ''abc123'') = None
   \<and> expired_row \<in> set (urls expired_world)
   \<and> IsActive expired_row
   \<and> ExpiresAt expired_row = Some 50
   \<and> GetOriginalURL demo_service wired_infra expired_world ''abc123'' 100
       = (Inl ErrURLExpired, expired_world, [])"
proof -
  have h: "db_up wired_infra" "cache expired_world (prefixKey ''abc123'') = None"
    "expired_row \<in> set (urls expired_world)" "ShortCode expired_row = ''abc123''"
    "IsActive expired_row" "distinct (map ShortCode (urls expired_world))"
    "ExpiresAt expired_row = Some 50"
    by (simp_all add: wired_infra_def expired_world_def expired_row_def)
  have "GetOriginalURL demo_service wired_infra expired_world ''abc123'' 100
       = (Inl ErrURLExpired, expired_world, [])"
    using h by (intro GetOriginalURL_expired [where u = expired_row and e = 50]) simp_all
  with h show ?thesis by simp
qed

text \<open>
  Claim C7, as the code has it: \<open>IncrementClickCount\<close> on a code that no active row
  owns changes no row and returns \<open>ErrURLNotFound\<close>, since no row was affected.
\<close>

theorem IncrementClickCount_no_active_row:
  assumes "db_up env"
    and "\<forall>r\<in>set rows. ShortCode r = shortCode \<longrightarrow> \<not> IsActive r"
  shows "IncrementClickCount env now rows shortCode = (Some ErrURLNotFound, rows)"
proof -
  let ?P = "\<lambda>r. ShortCode r = shortCode \<and> IsActive r = True"
  from assms(2) have none: "\<not> list_ex ?P rows"
    by (auto simp: list_ex_iff)
  have "filter ?P rows = []"
    using none by (rule filter_none)
  moreover have "map (\<lambda>r. if ?P r then r\<lparr>ClickCount := ClickCount r + 1, LastAccessAt := Some now, UpdatedAt := now\<rparr> else r) rows = rows"
    using none by (rule map_if_none)
  ultimately show ?thesis
    using assms(1) by (simp add: IncrementClickCount_def Let_def)
qed

text \<open>
  Claim C7 at an input: the only owner of \<open>promo\<close> is inactive.
\<close>

theorem IncrementClickCount_no_active_row_witness:
  "db_up wired_infra
   \<and> \<not> IsActive promo_row
   \<and> IncrementClickCount wired_infra 100 (urls promo_world) ''promo''
       = (Some ErrURLNotFound, urls promo_world)"
  using IncrementClickCount_no_active_row [of wired_infra "urls promo_world" "''promo''" 100]
  by (simp add: wired_infra_def promo_world_def promo_row_def)

text \<open>
  Claim C7 as stated fails: on the inactive code \<open>promo\<close> the call returns an error,
  not success.
\<close>

theorem IncrementClickCount_inactive_is_error:
  "fst (IncrementClickCount wired_infra 100 [promo_row] ''promo'') = Some ErrURLNotFound
   \<and> fst (IncrementClickCount wired_infra 100 [promo_row] ''promo'') \<noteq> None"
  by (simp add: IncrementClickCount_def wired_infra_def promo_row_def)

section \<open>Evaluating the examples\<close>

lemmas golib_defs =
  golib_def net_url_Parse_def getScheme_def stringContainsCTLByte_def ascii_letter_def
  ascii_digit_def scheme_punct_def plain_host_byte_def plain_path_byte_def ascii_ToLower_def
  ascii_lower_def net_url_String_def urlRegex_ascii_def urlRegex_after_def regexp_space_def

text \<open>The URLs of the examples are plain: the model of \<open>net/url\<close> covers them.\<close>

lemma example_urls_plain:
  "net_url_Parse ''https://example.com/new'' \<noteq> NotModelled
   \<and> net_url_Parse ''https://example.com/page'' \<noteq> NotModelled
   \<and> net_url_Parse ''http://example.com/a//'' \<noteq> NotModelled
   \<and> net_url_Parse ''http://example.com/a/'' \<noteq> NotModelled"
  by (simp add: golib_defs Let_def)

lemma ValidateURL_example_new: "ValidateURL golib ''https://example.com/new'' = None"
  by (simp add: ValidateURL_def golib_defs allowedSchemes_def Let_def)

lemma NormalizeURL_example_new:
  "NormalizeURL golib ''https://example.com/new'' = ''https://example.com/new''"
  by (simp add: NormalizeURL_def golib_defs strings_TrimSuffix_def suffix_to_prefix Let_def)

lemma ValidateURL_example_page: "ValidateURL golib ''https://example.com/page'' = None"
  by (simp add: ValidateURL_def golib_defs allowedSchemes_def Let_def)

lemma NormalizeURL_example_page:
  "NormalizeURL golib ''https://example.com/page'' = ''https://example.com/page''"
  by (simp add: NormalizeURL_def golib_defs strings_TrimSuffix_def suffix_to_prefix Let_def)

lemma AddDate_golib: "time_AddDate_days golib t d = t + d * day"
  by (simp add: golib_def)


lemma ValidateShortCode_hyphen: "ValidateShortCode ''my-link''"
  by (simp add: ValidateShortCode_def shortCodeRegex_MatchString_def shortCodeRegex_class_def)

lemma generator_demo_service: "generator demo_service = \<lparr>gen_length = 6\<rparr>"
  by (simp add: demo_service_def demo_cfg_def NewURLService_def NewCodeGenerator_def)

lemma cfg_demo_service: "cfg demo_service = demo_cfg"
  by (simp add: demo_service_def NewURLService_def)

lemma generator_demo_service_no_cache: "generator demo_service_no_cache = \<lparr>gen_length = 6\<rparr>"
  by (simp add: demo_service_no_cache_def demo_cfg_def NewURLService_def NewCodeGenerator_def)

lemma candidate_counting_0: "candidate demo_service counting_reader 0 = ''012345''"
  by (simp add: candidate_def generator_demo_service Generate_bytes_def rand_skip_def
      counting_reader_def Generate_index_def rand_Int_def upt_rec base62Chars_def)

lemma candidate_counting_1: "candidate demo_service counting_reader (Suc 0) = ''6789AB''"
  by (simp add: candidate_def generator_demo_service Generate_bytes_def rand_skip_def
      counting_reader_def Generate_index_def rand_Int_def upt_rec base62Chars_def)

lemma candidate_constant:
  "v < 62 \<Longrightarrow> gen_length (generator s) = 6
     \<Longrightarrow> candidate s (constant_reader v) k = replicate 6 (base62Chars ! v)"
  by (simp add: candidate_def Generate_bytes_def rand_skip_def constant_reader_def
      Generate_index_def rand_Int_def length_base62Chars map_replicate_const)

lemma candidate_zeros: "candidate demo_service (constant_reader 0) k = ''000000''"
proof -
  have "replicate 6 (base62Chars ! 0) = ''000000''"
    by (simp add: base62Chars_def numeral_eq_Suc)
  then show ?thesis
    using candidate_constant [of 0 demo_service k] by (simp add: generator_demo_service)
qed





lemma ShortenURL_hyphen_request:
  "fst (ShortenURL golib demo_service wired_infra empty_world hyphen_request ''10.0.0.2'' 100
          counting_reader)
     = Inr \<lparr>resp_ShortCode = ''my-link'',
            resp_ShortURL = ''http://localhost:8081/my-link'',
            resp_OriginalURL = ''https://example.com/new'',
            resp_CreatedAt = 100,
            resp_ExpiresAt = None\<rparr>"
  by (simp add: ShortenURL_def ValidateURL_example_new NormalizeURL_example_new hyphen_request_def
      empty_world_def wired_infra_def FindByOriginalURL_def gorm_First_def
      ShortenURL_shortCode_def ValidateShortCode_hyphen ExistsByShortCode_def Create_def
      gorm_Create_def ShortenURL_expiresAt_def demo_service_def demo_cfg_def NewURLService_def
      buildResponse_def next_id_def Let_def)

text \<open>
  Claim C6 as stated fails: the custom code \<open>my-link\<close> is accepted and persisted, and
  it is neither made of base62 symbols nor within the generator's length 6.
\<close>

theorem custom_code_outside_base62_accepted:
  "fst (ShortenURL golib demo_service wired_infra empty_world hyphen_request ''10.0.0.2'' 100
          counting_reader)
     = Inr \<lparr>resp_ShortCode = ''my-link'',
            resp_ShortURL = ''http://localhost:8081/my-link'',
            resp_OriginalURL = ''https://example.com/new'',
            resp_CreatedAt = 100,
            resp_ExpiresAt = None\<rparr>
   \<and> \<not> IsValid (generator demo_service) ''my-link''
   \<and> CHR ''-'' \<notin> set base62Chars"
  by (simp add: ShortenURL_hyphen_request IsValid_def generator_demo_service base62Chars_def)

text \<open>
  Claim C6 at an input: the request with the custom code \<open>my-link\<close>.
\<close>

theorem accepted_custom_code_format_witness:
  "ValidateURL golib (req_URL hyphen_request) = None
   \<and> req_CustomAlias hyphen_request = ''my-link''
   \<and> 2 \<le> length ''my-link'' \<and> length ''my-link'' \<le> 50
   \<and> list_all shortCodeRegex_class ''my-link''"
proof -
  have valid: "ValidateURL golib (req_URL hyphen_request) = None"
    by (simp add: hyphen_request_def ValidateURL_example_new)
  have nodedup: "case FindByOriginalURL wired_infra (urls empty_world)
                        (NormalizeURL golib (req_URL hyphen_request)) of
           Inl err \<Rightarrow> True | Inr existingURL \<Rightarrow> IsExpired existingURL 100"
    by (simp add: FindByOriginalURL_def wired_infra_def empty_world_def gorm_First_def)
  have custom: "req_CustomAlias hyphen_request \<noteq> []"
    by (simp add: hyphen_request_def)
  have accepted: "fst (ShortenURL golib demo_service wired_infra empty_world hyphen_request
                         ''10.0.0.2'' 100 counting_reader)
        \<noteq> Inl (NewValidationError ''Custom alias contains invalid characters'')"
    by (simp add: ShortenURL_hyphen_request)
  from accepted_custom_code_format [OF valid nodedup custom accepted] valid
  show ?thesis
    by (simp add: hyphen_request_def)
qed

lemma FindByOriginalURL_other_target:
  "FindByOriginalURL wired_infra [code_row code active] ''https://example.com/new''
     = Inl ErrURLNotFound"
  by (simp add: FindByOriginalURL_def wired_infra_def code_row_def gorm_First_def)

text \<open>
  Claim C4 at \<open>shadow_world\<close>: the store reports the first candidate as not existing
  (no candidate exists among active rows, \<open>K = 0\<close>), so \<open>generateUniqueShortCode\<close>
  returns it as unique; an inactive row owns it, the insert breaks the unique
  constraint, and the shorten fails without another attempt: the candidate is not
  persisted.
\<close>

theorem collision_with_inactive_row_not_persisted:
  "ExistsByShortCode wired_infra (urls shadow_world) (candidate demo_service counting_reader 0)
     = Inr False
   \<and> ShortenURL golib demo_service wired_infra shadow_world plain_request ''10.0.0.2'' 100
        counting_reader
     = (Inl (NewInternalError (DbError pg_unique_violation)), shadow_world)"
proof -
  have pre: "ExistsByShortCode wired_infra (urls shadow_world) ''012345'' = Inr False"
    by (simp add: ExistsByShortCode_def wired_infra_def shadow_world_def code_row_def)
  have g: "0 \<le> gen_length (generator demo_service)"
    by (simp add: generator_demo_service)
  have gen: "generateUniqueShortCode demo_service wired_infra (urls shadow_world) counting_reader
      = Inr ''012345''"
    using generateUniqueShortCode_finds [OF g, of 0 wired_infra "urls shadow_world" counting_reader]
      pre by (simp add: candidate_counting_0)
  have valid: "ValidateURL golib (req_URL plain_request) = None"
    by (simp add: plain_request_def ValidateURL_example_new)
  have nodedup: "case FindByOriginalURL wired_infra (urls shadow_world)
                        (NormalizeURL golib (req_URL plain_request)) of
           Inl err \<Rightarrow> True | Inr existingURL \<Rightarrow> IsExpired existingURL 100"
    by (simp add: plain_request_def NormalizeURL_example_new shadow_world_def
        FindByOriginalURL_other_target)
  have code: "ShortenURL_shortCode demo_service wired_infra (urls shadow_world) plain_request
                counting_reader = Inr ''012345''"
    using gen by (simp add: ShortenURL_shortCode_def plain_request_def)
  have "ShortenURL golib demo_service wired_infra shadow_world plain_request ''10.0.0.2'' 100
        counting_reader
     = (Inl (NewInternalError (DbError pg_unique_violation)), shadow_world)"
    unfolding ShortenURL_past_dedup [OF valid nodedup] code
    by (simp add: Create_def gorm_Create_def wired_infra_def shadow_world_def code_row_def
        pg_unique_violation_def)
  with pre show ?thesis
    by (simp add: candidate_counting_0)
qed

text \<open>
  The retry at two inputs: one taken candidate and then a free one, which is persisted;
  and five taken candidates, after which the shorten fails.
\<close>

lemma collision_retry_example:
  "ExistsByShortCode wired_infra (urls taken_world) (candidate demo_service counting_reader 0)
     = Inr True
   \<and> ExistsByShortCode wired_infra (urls taken_world) (candidate demo_service counting_reader 1)
     = Inr False
   \<and> fst (ShortenURL golib demo_service wired_infra taken_world plain_request ''10.0.0.2'' 100
             counting_reader)
     = Inr \<lparr>resp_ShortCode = ''6789AB'',
            resp_ShortURL = ''http://localhost:8081/6789AB'',
            resp_OriginalURL = ''https://example.com/new'',
            resp_CreatedAt = 100,
            resp_ExpiresAt = None\<rparr>
   \<and> map ShortCode
         (urls (snd (ShortenURL golib demo_service wired_infra taken_world plain_request
                       ''10.0.0.2'' 100 counting_reader)))
     = [''012345'', ''6789AB'']
   \<and> ExistsByShortCode wired_infra (urls zeros_world)
         (candidate demo_service (constant_reader 0) 4) = Inr True
   \<and> ShortenURL golib demo_service wired_infra zeros_world plain_request ''10.0.0.2'' 100
        (constant_reader 0)
     = (Inl (NewInternalError
              (Errorf ''failed to generate unique short code after 5 attempts'')), zeros_world)"
proof -
  have svc: "demo_service = NewURLService True demo_cfg"
    by (simp add: demo_service_def)
  have valid: "ValidateURL golib (req_URL plain_request) = None"
    by (simp add: plain_request_def ValidateURL_example_new)
  have nocustom: "req_CustomAlias plain_request = []"
    by (simp add: plain_request_def)
  have nodedup1: "case FindByOriginalURL wired_infra (urls taken_world)
                        (NormalizeURL golib (req_URL plain_request)) of
           Inl err \<Rightarrow> True | Inr existingURL \<Rightarrow> IsExpired existingURL 100"
    by (simp add: plain_request_def NormalizeURL_example_new taken_world_def
        FindByOriginalURL_other_target)
  have nodedup2: "case FindByOriginalURL wired_infra (urls zeros_world)
                        (NormalizeURL golib (req_URL plain_request)) of
           Inl err \<Rightarrow> True | Inr existingURL \<Rightarrow> IsExpired existingURL 100"
    by (simp add: plain_request_def NormalizeURL_example_new zeros_world_def
        FindByOriginalURL_other_target)
  have first: "ExistsByShortCode wired_infra (urls taken_world)
                 (candidate demo_service counting_reader 0) = Inr True"
    by (simp add: candidate_counting_0 ExistsByShortCode_def wired_infra_def taken_world_def
        code_row_def)
  have second: "ExistsByShortCode wired_infra (urls taken_world)
                 (candidate demo_service counting_reader 1) = Inr False"
    by (simp add: candidate_counting_1 ExistsByShortCode_def wired_infra_def taken_world_def
        code_row_def)
  have fresh: "\<forall>r\<in>set (urls taken_world). ShortCode r \<noteq> candidate demo_service counting_reader 1"
    by (simp add: candidate_counting_1 taken_world_def code_row_def)
  have zeros: "\<forall>k<5. ExistsByShortCode wired_infra (urls zeros_world)
                 (candidate demo_service (constant_reader 0) k) = Inr True"
    by (simp add: candidate_zeros ExistsByShortCode_def wired_infra_def zeros_world_def
        code_row_def)
  have hyp1: "(1::nat) < 5
      \<and> (\<forall>k<1. ExistsByShortCode wired_infra (urls taken_world)
                   (candidate demo_service counting_reader k) = Inr True)
      \<and> ExistsByShortCode wired_infra (urls taken_world)
           (candidate demo_service counting_reader 1) = Inr False
      \<and> (\<forall>r\<in>set (urls taken_world). ShortCode r \<noteq> candidate demo_service counting_reader 1)
      \<and> length ''10.0.0.2'' \<le> 45"
    using first second fresh by simp
  note part1 = collision_retry [OF svc valid nodedup1 nocustom,
      where K = 1 and rd = counting_reader and clientIP = "''10.0.0.2''",
      THEN conjunct1, THEN mp, OF hyp1]
  note part2 = collision_retry [OF svc valid nodedup2 nocustom,
      where K = 0 and rd = "constant_reader 0" and clientIP = "''10.0.0.2''",
      THEN conjunct2, THEN mp, OF zeros]
  have resp: "fst (ShortenURL golib demo_service wired_infra taken_world plain_request
                     ''10.0.0.2'' 100 counting_reader)
     = Inr \<lparr>resp_ShortCode = ''6789AB'',
            resp_ShortURL = ''http://localhost:8081/6789AB'',
            resp_OriginalURL = ''https://example.com/new'',
            resp_CreatedAt = 100,
            resp_ExpiresAt = None\<rparr>"
    unfolding part1
    by (simp add: buildResponse_def candidate_counting_1 plain_request_def
        NormalizeURL_example_new ShortenURL_expiresAt_def cfg_demo_service demo_cfg_def)
  have rows: "map ShortCode
         (urls (snd (ShortenURL golib demo_service wired_infra taken_world plain_request
                       ''10.0.0.2'' 100 counting_reader)))
     = [''012345'', ''6789AB'']"
    unfolding part1
    by (simp add: candidate_counting_1 taken_world_def code_row_def)
  from zeros have last: "ExistsByShortCode wired_infra (urls zeros_world)
         (candidate demo_service (constant_reader 0) 4) = Inr True"
    by simp
  from first second resp rows last part2 show ?thesis
    by simp
qed

text \<open>
  The deduplication of claim C3 works when the row that \<open>FindByOriginalURL\<close> returns,
  the active row of the target with the least id, is not expired.
\<close>

lemma ShortenURL_returns_existing:
  assumes "ValidateURL lib (req_URL req) = None"
    and "FindByOriginalURL env (urls w) (NormalizeURL lib (req_URL req)) = Inr existingURL"
    and "\<not> IsExpired existingURL now"
  shows "ShortenURL lib s env w req clientIP now rd = (Inr (buildResponse s existingURL), w)"
  using assms by (simp add: ShortenURL_def Let_def)

lemma candidate_fours: "candidate demo_service_no_cache (constant_reader 4) k = ''444444''"
proof -
  have "replicate 6 (base62Chars ! 4) = ''444444''"
    by (simp add: base62Chars_def numeral_eq_Suc)
  then show ?thesis
    using candidate_constant [of 4 demo_service_no_cache k]
    by (simp add: generator_demo_service_no_cache)
qed

lemma candidate_twos: "candidate demo_service_no_cache (constant_reader 2) k = ''222222''"
proof -
  have "replicate 6 (base62Chars ! 2) = ''222222''"
    by (simp add: base62Chars_def numeral_eq_Suc)
  then show ?thesis
    using candidate_constant [of 2 demo_service_no_cache k]
    by (simp add: generator_demo_service_no_cache)
qed

lemma candidate_zeros_no_cache: "candidate demo_service_no_cache (constant_reader 0) k = ''000000''"
proof -
  have "replicate 6 (base62Chars ! 0) = ''000000''"
    by (simp add: base62Chars_def numeral_eq_Suc)
  then show ?thesis
    using candidate_constant [of 0 demo_service_no_cache k]
    by (simp add: generator_demo_service_no_cache)
qed

lemma generate_on_fresh_table:
  assumes "\<forall>r\<in>set rows. ShortCode r \<noteq> candidate demo_service_no_cache rd 0"
  shows "ShortenURL_shortCode demo_service_no_cache wired_infra rows
           \<lparr>req_URL = u, req_CustomAlias = [], req_ExpiryDays = d\<rparr> rd
     = Inr (candidate demo_service_no_cache rd 0)"
proof -
  have g: "0 \<le> gen_length (generator demo_service_no_cache)"
    by (simp add: generator_demo_service_no_cache)
  have "ExistsByShortCode wired_infra rows (candidate demo_service_no_cache rd 0) = Inr False"
    using assms by (intro ExistsByShortCode_inactive) (auto simp: wired_infra_def)
  then have "generateUniqueShortCode demo_service_no_cache wired_infra rows rd
      = Inr (candidate demo_service_no_cache rd 0)"
    using generateUniqueShortCode_finds [OF g, of 0 wired_infra rows rd] by simp
  then show ?thesis
    by (simp add: ShortenURL_shortCode_def)
qed

text \<open>\<open>page_world\<close> is reached by the service itself, from the empty table.\<close>

lemma page_world_reached:
  "snd (ShortenURL golib demo_service_no_cache wired_infra
          (snd (ShortenURL golib demo_service_no_cache wired_infra empty_world
                  page_request_one_day ''10.0.0.2'' 0 (constant_reader 0)))
          page_request ''10.0.0.2'' (2 * day) (constant_reader 2))
     = page_world"
proof -
  have valid1: "ValidateURL golib (req_URL page_request_one_day) = None"
    by (simp add: page_request_one_day_def ValidateURL_example_page)
  have valid2: "ValidateURL golib (req_URL page_request) = None"
    by (simp add: page_request_def ValidateURL_example_page)
  have nodedup1: "case FindByOriginalURL wired_infra (urls empty_world)
                        (NormalizeURL golib (req_URL page_request_one_day)) of
           Inl err \<Rightarrow> True | Inr existingURL \<Rightarrow> IsExpired existingURL 0"
    by (simp add: FindByOriginalURL_def wired_infra_def empty_world_def gorm_First_def)
  have code1: "ShortenURL_shortCode demo_service_no_cache wired_infra (urls empty_world)
                 page_request_one_day (constant_reader 0) = Inr ''000000''"
    using generate_on_fresh_table [of "[]" "constant_reader 0"]
    by (simp add: page_request_one_day_def empty_world_def candidate_zeros_no_cache)
  have step1: "snd (ShortenURL golib demo_service_no_cache wired_infra empty_world
                  page_request_one_day ''10.0.0.2'' 0 (constant_reader 0))
      = \<lparr>urls = [page_row_first], cache = Map.empty\<rparr>"
    unfolding ShortenURL_past_dedup [OF valid1 nodedup1] code1
    by (simp add: Create_def gorm_Create_def wired_infra_def empty_world_def next_id_def
        page_row_first_def page_request_one_day_def NormalizeURL_example_page
        ShortenURL_expiresAt_def AddDate_golib demo_service_no_cache_def NewURLService_def
        Let_def)
  have nodedup2: "case FindByOriginalURL wired_infra (urls \<lparr>urls = [page_row_first], cache = Map.empty\<rparr>)
                        (NormalizeURL golib (req_URL page_request)) of
           Inl err \<Rightarrow> True | Inr existingURL \<Rightarrow> IsExpired existingURL (2 * day)"
    by (simp add: FindByOriginalURL_def wired_infra_def gorm_First_def page_row_first_def
        page_request_def NormalizeURL_example_page IsExpired_def day_def)
  have code2: "ShortenURL_shortCode demo_service_no_cache wired_infra
                 (urls \<lparr>urls = [page_row_first], cache = Map.empty\<rparr>)
                 page_request (constant_reader 2) = Inr ''222222''"
    using generate_on_fresh_table [of "[page_row_first]" "constant_reader 2"]
    by (simp add: page_request_def candidate_twos page_row_first_def)
  have step2: "snd (ShortenURL golib demo_service_no_cache wired_infra
                  \<lparr>urls = [page_row_first], cache = Map.empty\<rparr>
                  page_request ''10.0.0.2'' (2 * day) (constant_reader 2))
      = page_world"
    unfolding ShortenURL_past_dedup [OF valid2 nodedup2] code2
    by (simp add: Create_def gorm_Create_def wired_infra_def next_id_def
        page_row_first_def page_row_second_def page_world_def page_request_def
        NormalizeURL_example_page ShortenURL_expiresAt_def demo_service_no_cache_def
        demo_cfg_def NewURLService_def Let_def)
  show ?thesis
    unfolding step1 step2 ..
qed

text \<open>
  Claim C3 at \<open>page_world\<close>: the second row is an active, unexpired mapping of the
  target, yet shortening the target again creates a third row with a new code, because
  \<open>FindByOriginalURL\<close> returns the first row, which is expired and still active.
\<close>

theorem live_target_shortened_again:
  "page_row_second \<in> set (urls page_world)
   \<and> OriginalURL page_row_second = NormalizeURL golib (req_URL page_request)
   \<and> IsActive page_row_second
   \<and> \<not> IsExpired page_row_second (2 * day + 1)
   \<and> ShortenURL golib demo_service_no_cache wired_infra page_world page_request ''10.0.0.2''
        (2 * day + 1) (constant_reader 4)
     = (Inr (buildResponse demo_service_no_cache page_row_third),
        \<lparr>urls = [page_row_first, page_row_second, page_row_third], cache = Map.empty\<rparr>)
   \<and> ShortCode page_row_third \<noteq> ShortCode page_row_second"
proof -
  have valid: "ValidateURL golib (req_URL page_request) = None"
    by (simp add: page_request_def ValidateURL_example_page)
  have found: "FindByOriginalURL wired_infra (urls page_world)
                 (NormalizeURL golib (req_URL page_request)) = Inr page_row_first"
    by (simp add: FindByOriginalURL_def wired_infra_def gorm_First_def page_world_def
        page_row_first_def page_row_second_def page_request_def NormalizeURL_example_page)
  have nodedup: "case FindByOriginalURL wired_infra (urls page_world)
                        (NormalizeURL golib (req_URL page_request)) of
           Inl err \<Rightarrow> True | Inr existingURL \<Rightarrow> IsExpired existingURL (2 * day + 1)"
    unfolding found by (simp add: IsExpired_def page_row_first_def day_def)
  have code: "ShortenURL_shortCode demo_service_no_cache wired_infra (urls page_world)
                 page_request (constant_reader 4) = Inr ''444444''"
    using generate_on_fresh_table [of "urls page_world" "constant_reader 4"]
    by (simp add: page_request_def candidate_fours page_world_def page_row_first_def
        page_row_second_def)
  have run: "ShortenURL golib demo_service_no_cache wired_infra page_world page_request ''10.0.0.2''
        (2 * day + 1) (constant_reader 4)
     = (Inr (buildResponse demo_service_no_cache page_row_third),
        \<lparr>urls = [page_row_first, page_row_second, page_row_third], cache = Map.empty\<rparr>)"
    unfolding ShortenURL_past_dedup [OF valid nodedup] code
    by (simp add: Create_def gorm_Create_def wired_infra_def next_id_def page_world_def
        page_row_first_def page_row_second_def page_row_third_def page_request_def
        NormalizeURL_example_page ShortenURL_expiresAt_def demo_service_no_cache_def
        demo_cfg_def NewURLService_def Let_def numeral_3_eq_3)
  show ?thesis
    unfolding run
    by (simp add: page_world_def page_row_second_def page_row_third_def page_request_def
        NormalizeURL_example_page IsExpired_def)
qed

section \<open>NormalizeURL on plain URLs\<close>

lemma of_char_ascii_lower:
  "(of_char (ascii_lower c) :: nat)
     = (if 65 \<le> (of_char c :: nat) \<and> (of_char c :: nat) \<le> 90 then of_char c + 32 else of_char c)"
  by (cases c) (simp add: ascii_lower_def)

lemma char_eq_code: "(c = d) = ((of_char c :: nat) = of_char d)"
  by simp

lemma ascii_letter_lower: "ascii_letter (ascii_lower c) = ascii_letter c"
  by (auto simp: ascii_letter_def of_char_ascii_lower Let_def)

lemma scheme_punct_lower: "scheme_punct (ascii_lower c) = scheme_punct c"
  by (auto simp: scheme_punct_def ascii_digit_def of_char_ascii_lower Let_def char_eq_code [of _ "CHR ''+''"]
     char_eq_code [of _ "CHR ''-''"] char_eq_code [of _ "CHR ''.''"])

lemma plain_host_byte_lower: "plain_host_byte (ascii_lower c) = plain_host_byte c"
  by (auto simp: plain_host_byte_def ascii_letter_def ascii_digit_def of_char_ascii_lower Let_def
     char_eq_code [of _ "CHR ''_''"] char_eq_code [of _ "CHR ''~''"]
     char_eq_code [of _ "CHR ''-''"] char_eq_code [of _ "CHR ''.''"])

lemma ascii_lower_idem: "ascii_lower (ascii_lower c) = ascii_lower c"
  by (simp add: char_eq_code of_char_ascii_lower)

lemma plain_host_byte_facts:
  "plain_host_byte c \<Longrightarrow> c \<noteq> CHR ''/'' \<and> c \<noteq> CHR ''#'' \<and> c \<noteq> CHR '':''
      \<and> \<not> ((of_char c :: nat) < 32 \<or> (of_char c :: nat) = 127)"
  by (auto simp: plain_host_byte_def ascii_letter_def ascii_digit_def Let_def)

lemma scheme_byte_facts:
  "ascii_letter c \<or> scheme_punct c \<Longrightarrow> c \<noteq> CHR ''/'' \<and> c \<noteq> CHR ''#'' \<and> c \<noteq> CHR '':''
      \<and> \<not> ((of_char c :: nat) < 32 \<or> (of_char c :: nat) = 127)"
  by (auto simp: scheme_punct_def ascii_letter_def ascii_digit_def Let_def)


lemma colon_not_scheme_byte: "\<not> ascii_letter CHR '':'' \<and> \<not> scheme_punct CHR '':''"
  by (simp add: ascii_letter_def scheme_punct_def ascii_digit_def)

lemma getScheme_scan_complete:
  "list_all (\<lambda>c. ascii_letter c \<or> scheme_punct c) m
     \<Longrightarrow> seen \<noteq> [] \<or> (m \<noteq> [] \<and> ascii_letter (hd m))
     \<Longrightarrow> getScheme_scan raw seen (m @ CHR '':'' # rest) = Inr (seen @ m, rest)"
proof (induction m arbitrary: seen)
  case Nil
  then show ?case
    by (simp add: colon_not_scheme_byte)
next
  case (Cons c m)
  have rest_ok: "list_all (\<lambda>c. ascii_letter c \<or> scheme_punct c) m"
    using Cons.prems(1) by simp
  have step: "getScheme_scan raw (seen @ [c]) (m @ CHR '':'' # rest) = Inr ((seen @ [c]) @ m, rest)"
    using rest_ok by (intro Cons.IH) simp_all
  show ?case
  proof (cases "ascii_letter c")
    case True
    with step show ?thesis by simp
  next
    case False
    with Cons.prems have "scheme_punct c" and "seen \<noteq> []"
      by auto
    with False step show ?thesis by simp
  qed
qed

lemma getScheme_scan_sound:
  "getScheme_scan raw seen cs = Inr (sc, rest) \<Longrightarrow> sc \<noteq> []
     \<Longrightarrow> seen = [] \<or> scheme_shaped seen
     \<Longrightarrow> \<exists>m. sc = seen @ m \<and> cs = m @ CHR '':'' # rest \<and> scheme_shaped sc"
proof (induction cs arbitrary: seen)
  case Nil
  then show ?case by simp
next
  case (Cons c cs)
  have grow: "ascii_letter c \<or> (scheme_punct c \<and> seen \<noteq> []) \<Longrightarrow> scheme_shaped (seen @ [c])"
    using Cons.prems(3) by (auto simp: scheme_shaped_def)
  show ?case
  proof (cases "ascii_letter c")
    case True
    then have "getScheme_scan raw (seen @ [c]) cs = Inr (sc, rest)"
      using Cons.prems(1) by simp
    from Cons.IH [OF this Cons.prems(2)] grow True
    obtain m where "sc = (seen @ [c]) @ m" "cs = m @ CHR '':'' # rest" "scheme_shaped sc"
      by blast
    then show ?thesis
      by (intro exI [of _ "c # m"]) simp
  next
    case notletter: False
    show ?thesis
    proof (cases "scheme_punct c")
      case True
      with notletter Cons.prems(1,2) have ne: "seen \<noteq> []"
        by (auto split: if_splits)
      with notletter True Cons.prems(1)
      have "getScheme_scan raw (seen @ [c]) cs = Inr (sc, rest)"
        by simp
      from Cons.IH [OF this Cons.prems(2)] grow True ne
      obtain m where "sc = (seen @ [c]) @ m" "cs = m @ CHR '':'' # rest" "scheme_shaped sc"
        by blast
      then show ?thesis
        by (intro exI [of _ "c # m"]) simp
    next
      case False
      with notletter Cons.prems(1,2) have "c = CHR '':''" "seen \<noteq> []" "sc = seen" "rest = cs"
        by (auto split: if_splits)
      with Cons.prems(3) show ?thesis
        by (intro exI [of _ "[]"]) simp
    qed
  qed
qed

lemma getScheme_sound:
  assumes "getScheme raw = Inr (sc, rest)" and "sc \<noteq> []"
  shows "raw = sc @ CHR '':'' # rest \<and> scheme_shaped sc"
  using getScheme_scan_sound [of raw "[]" raw sc rest] assms
  by (auto simp: getScheme_def)

lemma getScheme_complete:
  assumes "scheme_shaped sc"
  shows "getScheme (sc @ CHR '':'' # rest) = Inr (sc, rest)"
  using getScheme_scan_complete [of sc "[]" "sc @ CHR '':'' # rest" rest] assms
  by (simp add: getScheme_def scheme_shaped_def)

lemma scheme_shaped_ToLower: "scheme_shaped sc \<Longrightarrow> scheme_shaped (ascii_ToLower sc)"
  by (cases sc)
     (auto simp: scheme_shaped_def ascii_ToLower_def ascii_letter_lower scheme_punct_lower
        list_all_iff)

lemma ascii_ToLower_idem: "ascii_ToLower (ascii_ToLower s) = ascii_ToLower s"
  by (simp add: ascii_ToLower_def ascii_lower_idem)

lemma strings_Contains_append:
  "sub \<noteq> [] \<Longrightarrow> strings_Contains (a @ sub @ b) sub"
  by (induction a) (auto simp: neq_Nil_conv)

lemma strings_Contains_https: "strings_Contains (''https://'' @ s) ''://''"
  using strings_Contains_append [of "''://''" "''https''" s] by simp

lemma takeWhile_until_slash:
  "\<forall>c\<in>set xs. c \<noteq> CHR ''/'' \<Longrightarrow> ys = [] \<or> hd ys = CHR ''/''
     \<Longrightarrow> takeWhile (\<lambda>c. c \<noteq> CHR ''/'') (xs @ ys) = xs
       \<and> dropWhile (\<lambda>c. c \<noteq> CHR ''/'') (xs @ ys) = ys"
  by (cases ys) (auto simp: takeWhile_append2 dropWhile_append2)

lemma dropWhile_slash_head:
  "dropWhile (\<lambda>c. c \<noteq> CHR ''/'') xs = [] \<or> hd (dropWhile (\<lambda>c. c \<noteq> CHR ''/'') xs) = CHR ''/''"
  using hd_dropWhile [of "\<lambda>c. c \<noteq> CHR ''/''" xs] by auto

lemma TrimSuffix_slash_cases:
  "strings_TrimSuffix p ''/'' = (if p \<noteq> [] \<and> last p = CHR ''/'' then butlast p else p)"
proof (cases "p = []")
  case True
  then show ?thesis by (simp add: strings_TrimSuffix_def)
next
  case False
  then obtain q c where p: "p = q @ [c]"
    by (metis rev_exhaust)
  show ?thesis
    by (simp add: p strings_TrimSuffix_def suffix_def)
qed


lemma plain_path_byte_facts:
  "plain_path_byte c \<Longrightarrow> c \<noteq> CHR ''#''
      \<and> \<not> ((of_char c :: nat) < 32 \<or> (of_char c :: nat) = 127)"
  using plain_host_byte_facts [of c] by (auto simp: plain_path_byte_def)

lemma net_url_Parse_Parsed:
  assumes "net_url_Parse raw = Parsed u"
  shows "\<exists>sc auth path.
           getScheme raw = Inr (sc, ''//'' @ auth @ path)
         \<and> raw = sc @ ''://'' @ auth @ path
         \<and> scheme_shaped sc \<and> auth \<noteq> []
         \<and> list_all plain_host_byte auth \<and> list_all plain_path_byte path
         \<and> (path = [] \<or> hd path = CHR ''/'')
         \<and> u = \<lparr>Scheme = ascii_ToLower sc, Host = auth, Path = path\<rparr>"
proof -
  from assms obtain sc rest where gs: "getScheme raw = Inr (sc, rest)"
    by (auto simp: net_url_Parse_def split: if_splits sum.splits)
  let ?auth = "takeWhile (\<lambda>c. c \<noteq> CHR ''/'') (drop 2 rest)"
  let ?path = "dropWhile (\<lambda>c. c \<noteq> CHR ''/'') (drop 2 rest)"
  from assms gs have facts: "sc \<noteq> []" "prefix ''//'' rest" "?auth \<noteq> []"
      "list_all plain_host_byte ?auth" "list_all plain_path_byte ?path"
      "u = \<lparr>Scheme = ascii_ToLower sc, Host = ?auth, Path = ?path\<rparr>"
    by (auto simp: net_url_Parse_def Let_def split: if_splits)
  from facts(2) obtain r where "rest = ''//'' @ r"
    by (auto simp: prefix_def)
  then have rest: "rest = ''//'' @ ?auth @ ?path"
    by simp
  from getScheme_sound [OF gs facts(1)] have raw: "raw = sc @ CHR '':'' # rest" and sh: "scheme_shaped sc"
    by simp_all
  have "raw = sc @ ''://'' @ ?auth @ ?path"
    using raw rest by simp
  moreover have "getScheme raw = Inr (sc, ''//'' @ ?auth @ ?path)"
    using gs rest by simp
  ultimately show ?thesis
    using sh facts(3-6) dropWhile_slash_head [of "drop 2 rest"] by blast
qed

lemma net_url_Parse_plain:
  assumes "scheme_shaped sc" and "auth \<noteq> []" and "list_all plain_host_byte auth"
    and "list_all plain_path_byte path" and "path = [] \<or> hd path = CHR ''/''"
  shows "net_url_Parse (sc @ ''://'' @ auth @ path)
     = Parsed \<lparr>Scheme = ascii_ToLower sc, Host = auth, Path = path\<rparr>"
proof -
  define rest where "rest = ''//'' @ auth @ path"
  define raw where "raw = sc @ CHR '':'' # rest"
  have sc_bytes: "\<forall>c\<in>set sc. ascii_letter c \<or> scheme_punct c" and sc_ne: "sc \<noteq> []"
    using assms(1) by (simp_all add: scheme_shaped_def list_all_iff)
  have auth_bytes: "\<forall>c\<in>set auth. plain_host_byte c"
    using assms(3) by (simp add: list_all_iff)
  have path_bytes: "\<forall>c\<in>set path. plain_path_byte c"
    using assms(4) by (simp add: list_all_iff)
  define ok where "ok c \<longleftrightarrow> c \<noteq> CHR ''#'' \<and> \<not> ((of_char c :: nat) < 32 \<or> (of_char c :: nat) = 127)"
    for c :: char
  have sc_ok: "\<forall>c\<in>set sc. ok c"
    unfolding ok_def using sc_bytes scheme_byte_facts by blast
  have auth_ok: "\<forall>c\<in>set auth. ok c"
    unfolding ok_def using auth_bytes plain_host_byte_facts by blast
  have path_ok: "\<forall>c\<in>set path. ok c"
    unfolding ok_def using path_bytes plain_path_byte_facts by blast
  have colon_ok: "ok CHR '':''" and slash_ok: "ok CHR ''/''"
    unfolding ok_def by simp_all
  have all_ok: "\<forall>c\<in>set raw. ok c"
    unfolding raw_def rest_def using sc_ok auth_ok path_ok colon_ok slash_ok by auto
  have nohash: "CHR ''#'' \<notin> set raw"
  proof
    assume "CHR ''#'' \<in> set raw"
    with all_ok have "ok CHR ''#''" by blast
    then show False by (simp add: ok_def)
  qed
  have noctl: "\<not> stringContainsCTLByte raw"
  proof
    assume "stringContainsCTLByte raw"
    then obtain c where "c \<in> set raw" "(of_char c :: nat) < 32 \<or> (of_char c :: nat) = 127"
      unfolding stringContainsCTLByte_def list_ex_iff by blast
    with all_ok show False by (auto simp: ok_def)
  qed
  have gs: "getScheme raw = Inr (sc, rest)"
    unfolding raw_def using assms(1) by (rule getScheme_complete)
  have pre: "prefix ''//'' rest" and dr: "drop 2 rest = auth @ path"
    unfolding rest_def by simp_all
  have "\<forall>c\<in>set auth. c \<noteq> CHR ''/''"
    using auth_bytes plain_host_byte_facts by blast
  then have split: "takeWhile (\<lambda>c. c \<noteq> CHR ''/'') (auth @ path) = auth"
      "dropWhile (\<lambda>c. c \<noteq> CHR ''/'') (auth @ path) = path"
    using takeWhile_until_slash [of auth path] assms(5) by simp_all
  have "net_url_Parse raw = Parsed \<lparr>Scheme = ascii_ToLower sc, Host = auth, Path = path\<rparr>"
    unfolding net_url_Parse_def gs
    using nohash noctl sc_ne pre assms(2,3,4) by (simp add: dr split Let_def)
  then show ?thesis
    unfolding raw_def rest_def by simp
qed

lemma net_url_String_plain:
  assumes "sc \<noteq> []" and "auth \<noteq> []" and "path = [] \<or> hd path = CHR ''/''"
  shows "net_url_String \<lparr>Scheme = sc, Host = auth, Path = path\<rparr> = sc @ ''://'' @ auth @ path"
  using assms by (auto simp: net_url_String_def Let_def)

lemma url_URL_update:
  "u\<lparr>Scheme := a, Host := b, Path := c\<rparr> = \<lparr>Scheme = a, Host = b, Path = c\<rparr>"
  by (cases u) simp

lemma NormalizeURL_golib:
  "NormalizeURL golib s =
     (let rawURL = (if \<not> strings_Contains s ''://'' then ''https://'' @ s else s)
      in case net_url_Parse rawURL of
           Parsed u \<Rightarrow>
             net_url_String \<lparr>Scheme = ascii_ToLower (Scheme u), Host = ascii_ToLower (Host u),
                             Path = strings_TrimSuffix (Path u) ''/''\<rparr>
         | ParseError e \<Rightarrow> rawURL
         | NotModelled \<Rightarrow> rawURL)"
  by (cases "net_url_Parse (if \<not> strings_Contains s ''://'' then ''https://'' @ s else s)")
     (simp_all add: NormalizeURL_def golib_def Let_def url_URL_update)

lemma NormalizeURL_golib_plain:
  assumes "scheme_shaped sc" and "auth \<noteq> []" and "list_all plain_host_byte auth"
    and "list_all plain_path_byte path" and "path = [] \<or> hd path = CHR ''/''"
  shows "NormalizeURL golib (sc @ ''://'' @ auth @ path)
     = ascii_ToLower sc @ ''://'' @ ascii_ToLower auth @ strings_TrimSuffix path ''/''"
proof -
  define raw where "raw = sc @ ''://'' @ auth @ path"
  have contains: "strings_Contains raw ''://''"
    unfolding raw_def using strings_Contains_append [of "''://''" sc "auth @ path"] by simp
  have parsed: "net_url_Parse raw = Parsed \<lparr>Scheme = ascii_ToLower sc, Host = auth, Path = path\<rparr>"
    unfolding raw_def using assms by (rule net_url_Parse_plain)
  have trimmed: "strings_TrimSuffix path ''/'' = [] \<or> hd (strings_TrimSuffix path ''/'') = CHR ''/''"
    using assms(5)
    by (cases path rule: rev_cases) (auto simp: TrimSuffix_slash_cases hd_append split: if_splits)
  have "net_url_String \<lparr>Scheme = ascii_ToLower sc, Host = ascii_ToLower auth,
                         Path = strings_TrimSuffix path ''/''\<rparr>
      = ascii_ToLower sc @ ''://'' @ ascii_ToLower auth @ strings_TrimSuffix path ''/''"
    using assms(1,2) trimmed
    by (intro net_url_String_plain) (simp_all add: scheme_shaped_def ascii_ToLower_def)
  then have "NormalizeURL golib raw
      = ascii_ToLower sc @ ''://'' @ ascii_ToLower auth @ strings_TrimSuffix path ''/''"
    using contains by (simp add: NormalizeURL_golib [of raw] parsed ascii_ToLower_idem)
  then show ?thesis
    unfolding raw_def .
qed

text \<open>
  Where the idempotence of claim C10 holds in the model: on a text that, after
  \<open>https://\<close> was put in front of one without \<open>://\<close>, is a plain
  \<open>scheme://host/path\<close> or is refused by \<open>url.Parse\<close>, and that does not end in two
  slashes, normalising the normalised URL changes nothing.
\<close>

lemma NormalizeURL_idempotent_plain:
  assumes covered: "net_url_Parse (if \<not> strings_Contains s ''://'' then ''https://'' @ s else s)
      \<noteq> NotModelled"
    and slashes: "\<not> suffix ''//'' s"
  shows "NormalizeURL golib (NormalizeURL golib s) = NormalizeURL golib s"
proof -
  let ?raw = "if \<not> strings_Contains s ''://'' then ''https://'' @ s else s"
  have contains: "strings_Contains ?raw ''://''"
    using strings_Contains_https by simp
  have same: "NormalizeURL golib s = NormalizeURL golib ?raw"
    using contains by (simp add: NormalizeURL_golib)
  show ?thesis
  proof (cases "net_url_Parse ?raw")
    case NotModelled
    with covered show ?thesis by simp
  next
    case (ParseError e)
    then have "NormalizeURL golib ?raw = ?raw"
      using contains by (simp add: NormalizeURL_golib)
    with same show ?thesis by simp
  next
    case (Parsed u)
    from net_url_Parse_Parsed [OF Parsed]
    obtain sc auth path where gs: "getScheme ?raw = Inr (sc, ''//'' @ auth @ path)"
      and raw: "?raw = sc @ ''://'' @ auth @ path"
      and sh: "scheme_shaped sc" and ne: "auth \<noteq> []"
      and hb: "list_all plain_host_byte auth" and pb: "list_all plain_path_byte path"
      and hd: "path = [] \<or> hd path = CHR ''/''"
      by blast
    let ?p = "strings_TrimSuffix path ''/''"
    have first: "NormalizeURL golib ?raw
        = ascii_ToLower sc @ ''://'' @ ascii_ToLower auth @ ?p"
      unfolding raw using sh ne hb pb hd by (rule NormalizeURL_golib_plain)
    have suffix_path: "suffix path s"
    proof (cases "strings_Contains s ''://''")
      case True
      with raw have "s = (sc @ ''://'' @ auth) @ path" by simp
      then show ?thesis
        unfolding suffix_def by blast
    next
      case False
      have "scheme_shaped ''https''"
        by (simp add: scheme_shaped_def ascii_letter_def)
      from getScheme_complete [OF this, of "''//'' @ s"] gs False
      have "s = auth @ path" by simp
      then show ?thesis
        unfolding suffix_def by blast
    qed
    have keep: "strings_TrimSuffix ?p ''/'' = ?p"
    proof (rule ccontr)
      assume "strings_TrimSuffix ?p ''/'' \<noteq> ?p"
      then have p: "?p \<noteq> []" "last ?p = CHR ''/''"
        by (auto simp: TrimSuffix_slash_cases [of ?p] split: if_splits)
      have "path \<noteq> [] \<and> last path = CHR ''/''"
        using p by (auto simp: TrimSuffix_slash_cases [of path] split: if_splits)
      then have "?p = butlast path" and "path = butlast path @ ''/''"
        by (auto simp: TrimSuffix_slash_cases [of path] dest: append_butlast_last_id)
      with p have "path = (butlast ?p @ ''/'') @ ''/''"
        by (metis append_butlast_last_id)
      then have "suffix ''//'' path"
        unfolding suffix_def by auto
      then have "suffix ''//'' s"
        using suffix_path by (rule suffix_order.trans)
      with slashes show False by simp
    qed
    have lower_host: "list_all plain_host_byte (ascii_ToLower auth)"
      using hb by (simp add: ascii_ToLower_def list_all_iff plain_host_byte_lower)
    have trimmed_bytes: "list_all plain_path_byte ?p"
      using pb by (auto simp: TrimSuffix_slash_cases list_all_iff dest: in_set_butlastD)
    have trimmed_head: "?p = [] \<or> hd ?p = CHR ''/''"
      using hd
      by (cases path rule: rev_cases) (auto simp: TrimSuffix_slash_cases hd_append split: if_splits)
    have "NormalizeURL golib (ascii_ToLower sc @ ''://'' @ ascii_ToLower auth @ ?p)
        = ascii_ToLower (ascii_ToLower sc) @ ''://'' @ ascii_ToLower (ascii_ToLower auth)
            @ strings_TrimSuffix ?p ''/''"
      using scheme_shaped_ToLower [OF sh] ne lower_host trimmed_bytes trimmed_head
      by (intro NormalizeURL_golib_plain) (simp_all add: ascii_ToLower_def)
    then have "NormalizeURL golib (NormalizeURL golib ?raw) = NormalizeURL golib ?raw"
      unfolding first by (simp add: ascii_ToLower_idem keep)
    with same show ?thesis by simp
  qed
qed


text \<open>
  Claim C10 at \<open>http://example.com/a//\<close>: \<open>TrimSuffix\<close> strips one slash, so the
  normalised URL still ends in a slash, and normalising it again strips that one too.
\<close>

theorem NormalizeURL_not_idempotent:
  "NormalizeURL golib ''http://example.com/a//'' = ''http://example.com/a/''
   \<and> NormalizeURL golib (NormalizeURL golib ''http://example.com/a//'') = ''http://example.com/a''
   \<and> NormalizeURL golib (NormalizeURL golib ''http://example.com/a//'')
       \<noteq> NormalizeURL golib ''http://example.com/a//''"
proof -
  have first: "NormalizeURL golib ''http://example.com/a//'' = ''http://example.com/a/''"
    by (simp add: NormalizeURL_def golib_defs strings_TrimSuffix_def suffix_to_prefix Let_def)
  have second: "NormalizeURL golib ''http://example.com/a/'' = ''http://example.com/a''"
    by (simp add: NormalizeURL_def golib_defs strings_TrimSuffix_def suffix_to_prefix Let_def)
  show ?thesis
    unfolding first second by simp
qed

end
